theory Spec2Isabelle
  imports Main "HOL-Library.Multiset"
begin

section \<open>JavaScript strings\<close>

text \<open>
  The program is \<^verbatim>\<open>src/app.js\<close>. A string of the model is a \<^typ>\<open>string\<close>; a
  character stands for the UTF-16 code unit with the same number, so the model covers the
  strings over U+0000 .. U+00FF and \<open>length\<close> counts what JavaScript's \<^verbatim>\<open>.length\<close>
  counts there. An absent (\<^verbatim>\<open>undefined\<close>, \<^verbatim>\<open>null\<close>) field is \<open>None\<close>.

  \<^verbatim>\<open>a || b\<close> on a field that is absent or a string: the empty string is falsy.
\<close>

fun orElse :: "string option \<Rightarrow> string \<Rightarrow> string" where
  "orElse None d = d"
| "orElse (Some s) d = (if s = [] then d else s)"

text \<open>
  White space as \<^verbatim>\<open>String.prototype.trim\<close> and the regular expression class
  \<^verbatim>\<open>\s\<close> see it, below U+0100: TAB, LF, VT, FF, CR, SPACE and NO-BREAK SPACE.
\<close>

definition isWs :: "char \<Rightarrow> bool" where
  "isWs c = (of_char c \<in> {9, 10, 11, 12, 13, 32, 160 :: nat})"

definition trim :: "string \<Rightarrow> string" where
  "trim s = rev (dropWhile isWs (rev (dropWhile isWs s)))"

text \<open>
  \<^verbatim>\<open>toLowerCase\<close>: A-Z and the capital letters U+00C0 .. U+00DE (without the
  multiplication sign U+00D7) move up by 32; every other character below U+0100 is its own
  lower case.
\<close>

definition lowerChar :: "char \<Rightarrow> char" where
  "lowerChar c = (let n = of_char c :: nat in
     if (65 \<le> n \<and> n \<le> 90) \<or> (192 \<le> n \<and> n \<le> 222 \<and> n \<noteq> 215)
     then char_of (n + 32) else c)"

definition toLowerCase :: "string \<Rightarrow> string" where
  "toLowerCase s = map lowerChar s"

text \<open>
  \<^verbatim>\<open>toUpperCase\<close>: a-z and the small letters U+00E0 .. U+00FE (without the division
  sign U+00F7) move down by 32, and the sharp s U+00DF becomes the two letters SS.
  The upper case of U+00B5 and of U+00FF lies above U+00FF (U+039C, U+0178): the model
  keeps these two characters, which no other character below U+0100 has as its upper
  case, so equality and length of upper-cased strings are those of the program.
\<close>

definition upperChar :: "char \<Rightarrow> string" where
  "upperChar c = (let n = of_char c :: nat in
     if n = 223 then ''SS''
     else if (97 \<le> n \<and> n \<le> 122) \<or> (224 \<le> n \<and> n \<le> 254 \<and> n \<noteq> 247)
     then [char_of (n - 32)] else [c])"

definition toUpperCase :: "string \<Rightarrow> string" where
  "toUpperCase s = concat (map upperChar s)"

text \<open>\<^verbatim>\<open>t.includes(s)\<close>: \<open>s\<close> occurs in \<open>t\<close> as a contiguous block.\<close>

fun isPrefix :: "string \<Rightarrow> string \<Rightarrow> bool" where
  "isPrefix [] t = True"
| "isPrefix (a # s) [] = False"
| "isPrefix (a # s) (b # t) = (a = b \<and> isPrefix s t)"

fun includesStr :: "string \<Rightarrow> string \<Rightarrow> bool" where
  "includesStr [] s = (s = [])"
| "includesStr (b # t) s = (isPrefix s (b # t) \<or> includesStr t s)"

text \<open>
  \<^verbatim>\<open>s.replace(/P+/g, "-")\<close> for a character class \<open>P\<close>: every maximal run of
  characters of the class becomes one hyphen.
\<close>

function replaceRuns :: "(char \<Rightarrow> bool) \<Rightarrow> string \<Rightarrow> string" where
  "replaceRuns P [] = []"
| "replaceRuns P (c # cs) =
     (if P c then CHR ''-'' # replaceRuns P (dropWhile P cs) else c # replaceRuns P cs)"
  by pat_completeness auto
termination
  by (relation "measure (\<lambda>(P, s). length s)") (auto simp: le_imp_less_Suc length_dropWhile_le)

section \<open>Channel records and the slug\<close>

text \<open>
  A channel is a JSON object of a fragment file; each field is a string or absent.
\<close>

record channel =
  iso :: "string option"
  name :: "string option"
  description :: "string option"
  logo :: "string option"
  ctype :: "string option"
  url :: "string option"
  source :: "string option"
  source_name :: "string option"

definition isDash :: "char \<Rightarrow> bool" where
  "isDash c = (c = CHR ''-'')"

text \<open>The class \<^verbatim>\<open>[a-z0-9-]\<close>.\<close>

definition slugChar :: "char \<Rightarrow> bool" where
  "slugChar c = (let n = of_char c :: nat in
     (97 \<le> n \<and> n \<le> 122) \<or> (48 \<le> n \<and> n \<le> 57) \<or> n = 45)"

text \<open>
  \<^verbatim>\<open>s.replace(/^-|-$/g, "")\<close>: a hyphen at the very start is removed, and then a
  hyphen at the very end of what is left; one of each at most.
\<close>

definition stripEdgeDash :: "string \<Rightarrow> string" where
  "stripEdgeDash s =
     (let s1 = (case s of [] \<Rightarrow> [] | c # r \<Rightarrow> if isDash c then r else s)
      in if s1 \<noteq> [] \<and> isDash (last s1) then butlast s1 else s1)"

text \<open>
  \<^verbatim>\<open>
  function channelSlug(ch) {
    const name = (ch.name || "channel").toLowerCase();
    return name.replace(/\s+/g, "-").replace(/[^a-z0-9-]/g, "").replace(/-+/g, "-")
               .replace(/^-|-$/g, "") || "channel";
  }
  \<close>
\<close>

definition channelSlug :: "channel \<Rightarrow> string" where
  "channelSlug ch =
     (let nm = toLowerCase (orElse (name ch) ''channel'');
          s = stripEdgeDash (replaceRuns isDash (filter slugChar (replaceRuns isWs nm)))
      in if s = [] then ''channel'' else s)"

text \<open>
  The slug as the specification words it: lower case, white space collapsed to a hyphen,
  everything outside \<^verbatim>\<open>[a-z0-9-]\<close> stripped, leading and trailing hyphens trimmed,
  \<open>channel\<close> for an absent name or an empty result.
\<close>

definition trimDashes :: "string \<Rightarrow> string" where
  "trimDashes s = rev (dropWhile isDash (rev (dropWhile isDash s)))"

definition slugify_spec :: "string option \<Rightarrow> string" where
  "slugify_spec n =
     (case n of None \<Rightarrow> ''channel''
      | Some nm \<Rightarrow>
          (let s = trimDashes (filter slugChar (replaceRuns isWs (toLowerCase nm)))
           in if s = [] then ''channel'' else s))"

text \<open>The same with one more step, before the trimming: a run of hyphens becomes one hyphen.\<close>

definition slugify_collapsing :: "string option \<Rightarrow> string" where
  "slugify_collapsing n =
     (case n of None \<Rightarrow> ''channel''
      | Some nm \<Rightarrow>
          (let s = trimDashes (replaceRuns isDash (filter slugChar (replaceRuns isWs (toLowerCase nm))))
           in if s = [] then ''channel'' else s))"

fun noDoubleDash :: "string \<Rightarrow> bool" where
  "noDoubleDash (a # b # r) = (\<not> (isDash a \<and> isDash b) \<and> noDoubleDash (b # r))"
| "noDoubleDash s = True"

section \<open>Country codes\<close>

text \<open>
  \<^verbatim>\<open>
  const ISO3_TO_ISO2_FALLBACK = { FRA: "FR", PRT: "PT", NOR: "NO", DEU: "DE", GBR: "GB", USA: "US" };
  const ISO2_TO_ISO3 = { FR: "FRA", PT: "PRT", NO: "NOR", DE: "DEU", GB: "GBR", US: "USA" };
  \<close>
  An object literal read by key is an association list read with \<open>map_of\<close>.
\<close>

definition ISO3_TO_ISO2_FALLBACK :: "(string \<times> string) list" where
  "ISO3_TO_ISO2_FALLBACK =
     [(''FRA'', ''FR''), (''PRT'', ''PT''), (''NOR'', ''NO''),
      (''DEU'', ''DE''), (''GBR'', ''GB''), (''USA'', ''US'')]"

definition ISO2_TO_ISO3 :: "(string \<times> string) list" where
  "ISO2_TO_ISO3 =
     [(''FR'', ''FRA''), (''PT'', ''PRT''), (''NO'', ''NOR''),
      (''DE'', ''DEU''), (''GB'', ''GBR''), (''US'', ''USA'')]"

definition UNKNOWN_COUNTRY_ISO :: string where
  "UNKNOWN_COUNTRY_ISO = ''XX''"

text \<open>
  \<^verbatim>\<open>
  function getChannelLoadCodes(countryCode) {
    const code = (countryCode || "").trim().toUpperCase();
    if (!code || (code.length !== 2 && code.length !== 3)) return [];
    const iso2 = code.length === 2 ? code : (ISO3_TO_ISO2_FALLBACK[code] || code);
    const iso3 = code.length === 3 ? code : (ISO2_TO_ISO3[code] || null);
    const out = [iso2];
    if (iso3 && iso3 !== iso2) out.push(iso3);
    return out;
  }
  \<close>
\<close>

definition getChannelLoadCodes :: "string option \<Rightarrow> string list" where
  "getChannelLoadCodes countryCode =
     (let code = toUpperCase (trim (orElse countryCode []))
      in if code = [] \<or> (length code \<noteq> 2 \<and> length code \<noteq> 3) then []
         else
           let iso2 = (if length code = 2 then code
                       else orElse (map_of ISO3_TO_ISO2_FALLBACK code) code);
               iso3 = (if length code = 3 then Some code else map_of ISO2_TO_ISO3 code)
           in [iso2] @ (case iso3 of None \<Rightarrow> []
                        | Some c \<Rightarrow> if c \<noteq> [] \<and> c \<noteq> iso2 then [c] else []))"

section \<open>Deep links\<close>

text \<open>
  The query string is taken as \<^verbatim>\<open>URLSearchParams\<close> has decoded it: the list of its
  (name, value) pairs in order; \<^verbatim>\<open>params.get(k)\<close> is the value of the first pair
  named \<open>k\<close>, or absent.
  \<^verbatim>\<open>
  function getUrlState() {
    const params = new URLSearchParams(window.location.search);
    const country = params.get("country")?.trim().toUpperCase();
    const channel = params.get("channel")?.trim();
    return { country: country && country.length === 2 ? country : null, channel: channel || null };
  }
  \<close>
\<close>

record url_state =
  country :: "string option"
  channel :: "string option"

definition getUrlState :: "(string \<times> string) list \<Rightarrow> url_state" where
  "getUrlState params =
     (let country = map_option (\<lambda>v. toUpperCase (trim v)) (map_of params ''country'');
          channel = map_option trim (map_of params ''channel'')
      in \<lparr>country = (case country of None \<Rightarrow> None
                      | Some c \<Rightarrow> if c \<noteq> [] \<and> length c = 2 then Some c else None),
          channel = (case channel of None \<Rightarrow> None
                      | Some c \<Rightarrow> if c = [] then None else Some c)\<rparr>)"

text \<open>
  What \<^verbatim>\<open>applyUrlState(selectByIso2)\<close> asks for: nothing, the unknown country with
  the channel slug to open, or the country of the map with that 2-letter code and the
  slug to open. The flag says whether \<^verbatim>\<open>selectByIso2\<close> is a function.
  \<^verbatim>\<open>
  function applyUrlState(selectByIso2) {
    const { country, channel } = getUrlState();
    if (!country) return;
    if (country === UNKNOWN_COUNTRY_ISO) { selectUnknown(...); return; }
    if (typeof selectByIso2 !== "function") return;
    const iso2ForMap = country.length === 3 ? (ISO3_TO_ISO2_FALLBACK[country] || country) : country;
    selectByIso2(iso2ForMap, ...);
  }
  \<close>
\<close>

datatype selection =
    NoSelection
  | SelectUnknown "string option"
  | SelectByIso2 string "string option"

definition applyUrlState :: "bool \<Rightarrow> (string \<times> string) list \<Rightarrow> selection" where
  "applyUrlState hasSelectByIso2 params =
     (let st = getUrlState params
      in case country st of
           None \<Rightarrow> NoSelection
         | Some c \<Rightarrow>
             if c = UNKNOWN_COUNTRY_ISO then SelectUnknown (channel st)
             else if \<not> hasSelectByIso2 then NoSelection
             else SelectByIso2
                    (if length c = 3 then orElse (map_of ISO3_TO_ISO2_FALLBACK c) c else c)
                    (channel st))"

section \<open>Channel resolution\<close>

text \<open>
  \<^verbatim>\<open>
  function findChannelBySlug(channels, slug) {
    if (!slug || !Array.isArray(channels)) return null;
    const s = slug.toLowerCase();
    return channels.find((ch) => channelSlug(ch) === s) || null;
  }
  \<close>
  The feed is a list, so \<^verbatim>\<open>Array.isArray(channels)\<close> holds.
\<close>

definition findChannelBySlug :: "channel list \<Rightarrow> string option \<Rightarrow> channel option" where
  "findChannelBySlug channels slug =
     (case slug of
        None \<Rightarrow> None
      | Some sl \<Rightarrow>
          if sl = [] then None
          else find (\<lambda>ch. channelSlug ch = toLowerCase sl) channels)"

section \<open>Favorites\<close>

text \<open>
  The favorites document is \<^verbatim>\<open>{items: [...]}\<close>. Its entries are the objects the
  program writes: \<^verbatim>\<open>{id, type: "channel", iso, slug, name}\<close> in
  \<^verbatim>\<open>addChannelToFavorites\<close> and \<^verbatim>\<open>{id, type: "folder", name, children: []}\<close> in
  \<^verbatim>\<open>addFolder\<close>. On these the tests \<^verbatim>\<open>it.type === "folder" &&
  Array.isArray(it.children)\<close> of the source say exactly that the entry is a folder.
\<close>

datatype fav =
    ChannelEntry string string string string
  | FolderEntry string string "fav list"

fun entryId :: "fav \<Rightarrow> string" where
  "entryId (ChannelEntry i a s n) = i"
| "entryId (FolderEntry i n ch) = i"

text \<open>\<^verbatim>\<open>it.iso || ""\<close> and \<^verbatim>\<open>it.slug || ""\<close>: a folder has neither field.\<close>

fun entryIso :: "fav \<Rightarrow> string" where
  "entryIso (ChannelEntry i a s n) = a"
| "entryIso (FolderEntry i n ch) = []"

fun entrySlug :: "fav \<Rightarrow> string" where
  "entrySlug (ChannelEntry i a s n) = s"
| "entrySlug (FolderEntry i n ch) = []"

text \<open>
  \<^verbatim>\<open>
  function resolveFavoriteChannel(entry) {
    if (!entry || entry.type !== "channel") return null;
    const channels = allChannelsCache || [];
    return findChannelBySlug(
      channels.filter((ch) => (ch.iso || "").toUpperCase() === (entry.iso || "").toUpperCase()),
      entry.slug
    ) || null;
  }
  \<close>
  The first argument is the feed to resolve in (\<^verbatim>\<open>allChannelsCache || []\<close>).
\<close>

fun resolveFavoriteChannel :: "channel list \<Rightarrow> fav \<Rightarrow> channel option" where
  "resolveFavoriteChannel channels (FolderEntry i n ch) = None"
| "resolveFavoriteChannel channels (ChannelEntry i a s n) =
     findChannelBySlug
       (filter (\<lambda>ch. toUpperCase (orElse (iso ch) []) = toUpperCase a) channels)
       (Some s)"

text \<open>
  \<^verbatim>\<open>
  function flattenFavoriteChannels(items) {
    const out = [];
    function walk(arr) {
      if (!Array.isArray(arr)) return;
      for (const it of arr) {
        if (it.type === "channel") out.push(it);
        if (it.type === "folder" && Array.isArray(it.children)) walk(it.children);
      }
    }
    walk(items);
    return out;
  }
  \<close>
\<close>

fun flattenFavoriteChannels :: "fav list \<Rightarrow> fav list" where
  "flattenFavoriteChannels [] = []"
| "flattenFavoriteChannels (ChannelEntry i a s n # r) =
     ChannelEntry i a s n # flattenFavoriteChannels r"
| "flattenFavoriteChannels (FolderEntry i n ch # r) =
     flattenFavoriteChannels ch @ flattenFavoriteChannels r"

text \<open>
  \<^verbatim>\<open>
  function isChannelInFavorites(iso, slug) {
    const flat = flattenFavoriteChannels(getFavorites().items);
    const normIso = (iso || "").toUpperCase();
    const normSlug = (slug || "").toLowerCase();
    return flat.some((it) => (it.iso || "").toUpperCase() === normIso
                          && (it.slug || "").toLowerCase() === normSlug);
  }
  \<close>
  The stored items are the first argument of every operation of the store, and its
  result where the operation writes them back.
\<close>

definition keyMatches :: "string \<Rightarrow> string \<Rightarrow> fav \<Rightarrow> bool" where
  "keyMatches normIso normSlug it =
     (toUpperCase (entryIso it) = normIso \<and> toLowerCase (entrySlug it) = normSlug)"

definition isChannelInFavorites :: "fav list \<Rightarrow> string \<Rightarrow> string \<Rightarrow> bool" where
  "isChannelInFavorites items isoArg slug =
     list_ex (keyMatches (toUpperCase isoArg) (toLowerCase slug)) (flattenFavoriteChannels items)"

text \<open>
  \<^verbatim>\<open>
  function favId() {
    return "f_" + Date.now() + "_" + Math.random().toString(36).slice(2, 10);
  }
  \<close>
  \<open>now\<close> is the decimal text of \<^verbatim>\<open>Date.now()\<close> and \<open>rnd\<close> the text
  \<^verbatim>\<open>Math.random().toString(36).slice(2, 10)\<close>.
\<close>

definition favId :: "string \<Rightarrow> string \<Rightarrow> string" where
  "favId now rnd = ''f_'' @ now @ ''_'' @ rnd"

text \<open>
  \<^verbatim>\<open>
  function addChannelToFavorites(ch) {
    const iso = (ch.iso || "").toUpperCase();
    const slug = channelSlug(ch);
    if (isChannelInFavorites(iso, slug)) return;
    const data = getFavorites();
    data.items.push({ id: favId(), type: "channel", iso, slug, name: ch.name || "Channel" });
    setFavorites(data);
  }
  \<close>
  The first two arguments are what \<^verbatim>\<open>favId()\<close> reads: the decimal text of the clock
  and the digits it takes from the random number. The stored items are not among the
  things it reads.
\<close>

definition addChannelToFavorites ::
    "string \<Rightarrow> string \<Rightarrow> channel \<Rightarrow> fav list \<Rightarrow> fav list" where
  "addChannelToFavorites now rnd ch items =
     (let isoU = toUpperCase (orElse (iso ch) []);
          slug = channelSlug ch
      in if isChannelInFavorites items isoU slug then items
         else items @ [ChannelEntry (favId now rnd) isoU slug (orElse (name ch) ''Channel'')])"

text \<open>
  Taking an entry out of an array: \<^verbatim>\<open>arr.findIndex((it) => it.id === itemId)\<close>
  followed by \<^verbatim>\<open>arr.splice(idx, 1)[0]\<close>. The result is the entry taken out and the
  array without it, or nothing when no entry of the array has the identifier.
\<close>

fun spliceById :: "string \<Rightarrow> fav list \<Rightarrow> (fav \<times> fav list) option" where
  "spliceById itemId [] = None"
| "spliceById itemId (it # r) =
     (if entryId it = itemId then Some (it, r)
      else map_option (\<lambda>(m, r'). (m, it # r')) (spliceById itemId r))"

text \<open>
  \<^verbatim>\<open>
  function removeFrom(arr) {
    const idx = arr.findIndex((it) => it.id === itemId);
    if (idx !== -1) { moved = arr.splice(idx, 1)[0]; return true; }
    for (const it of arr) {
      if (it.type === "folder" && Array.isArray(it.children) && removeFrom(it.children)) return true;
    }
    return false;
  }
  \<close>
  The array is searched first, then the folders of the array from left to right, each
  with the same search. \<open>removeFrom\<close> returns the entry assigned to \<^verbatim>\<open>moved\<close> and the
  array after the splice, or nothing for \<^verbatim>\<open>false\<close>; \<open>removeInFolders\<close> is the loop.
\<close>

fun removeFrom :: "string \<Rightarrow> fav list \<Rightarrow> (fav \<times> fav list) option"
  and removeInFolders :: "string \<Rightarrow> fav list \<Rightarrow> (fav \<times> fav list) option" where
  "removeFrom itemId arr =
     (case spliceById itemId arr of
        Some found \<Rightarrow> Some found
      | None \<Rightarrow> removeInFolders itemId arr)"
| "removeInFolders itemId [] = None"
| "removeInFolders itemId (ChannelEntry i a s n # r) =
     map_option (\<lambda>(m, r'). (m, ChannelEntry i a s n # r')) (removeInFolders itemId r)"
| "removeInFolders itemId (FolderEntry i n ch # r) =
     (case removeFrom itemId ch of
        Some (m, ch') \<Rightarrow> Some (m, FolderEntry i n ch' # r)
      | None \<Rightarrow> map_option (\<lambda>(m, r'). (m, FolderEntry i n ch # r')) (removeInFolders itemId r))"

text \<open>
  \<^verbatim>\<open>
  function addToFolder(arr) {
    for (const it of arr) {
      if (it.id === folderId && it.type === "folder") {
        if (!it.children) it.children = [];
        it.children.push(moved);
        return true;
      }
      if (it.type === "folder" && Array.isArray(it.children) && addToFolder(it.children)) return true;
    }
    return false;
  }
  \<close>
  The result is the array after the push, or nothing for \<^verbatim>\<open>false\<close>.
\<close>

fun addToFolder :: "string \<Rightarrow> fav \<Rightarrow> fav list \<Rightarrow> fav list option" where
  "addToFolder folderId moved [] = None"
| "addToFolder folderId moved (ChannelEntry i a s n # r) =
     map_option (\<lambda>r'. ChannelEntry i a s n # r') (addToFolder folderId moved r)"
| "addToFolder folderId moved (FolderEntry i n ch # r) =
     (if i = folderId then Some (FolderEntry i n (ch @ [moved]) # r)
      else case addToFolder folderId moved ch of
             Some ch' \<Rightarrow> Some (FolderEntry i n ch' # r)
           | None \<Rightarrow> map_option (\<lambda>r'. FolderEntry i n ch # r') (addToFolder folderId moved r))"

text \<open>
  \<^verbatim>\<open>
  function moveFavoriteToFolder(itemId, folderId) {
    const data = getFavorites();
    let moved = null;
    removeFrom(data.items);
    if (!moved) return;
    if (!addToFolder(data.items)) data.items.push(moved);
    setFavorites(data);
  }
  \<close>
\<close>

definition moveFavoriteToFolder :: "string \<Rightarrow> string \<Rightarrow> fav list \<Rightarrow> fav list" where
  "moveFavoriteToFolder itemId folderId items =
     (case removeFrom itemId items of
        None \<Rightarrow> items
      | Some (moved, rest) \<Rightarrow>
          (case addToFolder folderId moved rest of
             Some items' \<Rightarrow> items'
           | None \<Rightarrow> rest @ [moved]))"

text \<open>
  Every entry of a forest, folders and channels, in depth-first order; a folder is listed
  by its own fields, without its children, which follow it.
\<close>

fun allEntries :: "fav list \<Rightarrow> fav list" where
  "allEntries [] = []"
| "allEntries (ChannelEntry i a s n # r) = ChannelEntry i a s n # allEntries r"
| "allEntries (FolderEntry i n ch # r) = FolderEntry i n [] # allEntries ch @ allEntries r"

text \<open>
  The children of the folder an identifier resolves to: the first folder with that
  identifier in depth-first order, a folder before its children.
\<close>

fun folderChildren :: "string \<Rightarrow> fav list \<Rightarrow> fav list option" where
  "folderChildren folderId [] = None"
| "folderChildren folderId (ChannelEntry i a s n # r) = folderChildren folderId r"
| "folderChildren folderId (FolderEntry i n ch # r) =
     (if i = folderId then Some ch
      else case folderChildren folderId ch of
             Some c \<Rightarrow> Some c
           | None \<Rightarrow> folderChildren folderId r)"

text \<open>
  An entry occurs in a forest when it is a top-level entry or occurs in the children of
  a folder of the forest.
\<close>

inductive occursIn :: "fav \<Rightarrow> fav list \<Rightarrow> bool" where
  top: "e \<in> set items \<Longrightarrow> occursIn e items"
| nested: "FolderEntry i n ch \<in> set items \<Longrightarrow> occursIn e ch \<Longrightarrow> occursIn e items"

fun isChannelEntry :: "fav \<Rightarrow> bool" where
  "isChannelEntry (ChannelEntry i a s n) = True"
| "isChannelEntry (FolderEntry i n ch) = False"

text \<open>
  The number of channel entries anywhere in the forest that have a composite key, the iso
  compared in upper case and the slug in lower case.
\<close>

definition keyCount :: "fav list \<Rightarrow> string \<Rightarrow> string \<Rightarrow> nat" where
  "keyCount items isoArg slug =
     length (filter (\<lambda>e. isChannelEntry e \<and> toUpperCase (entryIso e) = toUpperCase isoArg
                         \<and> toLowerCase (entrySlug e) = toLowerCase slug)
       (allEntries items))"









section \<open>Trash\<close>

text \<open>
  The trash document is a flat array of the objects \<^verbatim>\<open>{iso, slug, name}\<close> that
  \<^verbatim>\<open>addChannelToTrash\<close> writes.
\<close>

datatype trashed = TrashEntry string string string

fun trashIso :: "trashed \<Rightarrow> string" where
  "trashIso (TrashEntry a s n) = a"

fun trashSlug :: "trashed \<Rightarrow> string" where
  "trashSlug (TrashEntry a s n) = s"

text \<open>
  \<^verbatim>\<open>
  function isChannelInTrash(iso, slug) {
    const list = getTrash();
    const normIso = (iso || "").toUpperCase();
    const normSlug = (slug || "").toLowerCase();
    return list.some((e) => (e.iso || "").toUpperCase() === normIso
                         && (e.slug || "").toLowerCase() === normSlug);
  }
  \<close>
\<close>

definition isChannelInTrash :: "trashed list \<Rightarrow> string \<Rightarrow> string \<Rightarrow> bool" where
  "isChannelInTrash list isoArg slug =
     list_ex (\<lambda>e. toUpperCase (trashIso e) = toUpperCase isoArg
                \<and> toLowerCase (trashSlug e) = toLowerCase slug) list"

text \<open>
  \<^verbatim>\<open>
  function addChannelToTrash(ch) {
    const iso = (ch.iso || "").toUpperCase();
    const slug = channelSlug(ch);
    if (isChannelInTrash(iso, slug)) return;
    const list = getTrash();
    list.push({ iso, slug, name: ch.name || "Channel" });
    setTrash(list);
  }
  \<close>
\<close>

definition addChannelToTrash :: "channel \<Rightarrow> trashed list \<Rightarrow> trashed list" where
  "addChannelToTrash ch list =
     (let isoU = toUpperCase (orElse (iso ch) []);
          slug = channelSlug ch
      in if isChannelInTrash list isoU slug then list
         else list @ [TrashEntry isoU slug (orElse (name ch) ''Channel'')])"

section \<open>Loading a feed\<close>

text \<open>
  \<^verbatim>\<open>
  const CHANNEL_SOURCE_NAMES = ["iptv-org", "free-tv-iptv", "iprd", "famelack-channels",
    "m3u-radio-music-playlists", "insecam", "windy"];
  \<close>
\<close>

definition CHANNEL_SOURCE_NAMES :: "string list" where
  "CHANNEL_SOURCE_NAMES =
     [''iptv-org'', ''free-tv-iptv'', ''iprd'', ''famelack-channels'',
      ''m3u-radio-music-playlists'', ''insecam'', ''windy'']"

text \<open>
  What the statements on one fragment come to, by the first of them that decides it:
  \<^item> \<open>Rejected\<close>: \<^verbatim>\<open>await fetch(path)\<close> raises, the request has failed;
  \<^item> \<open>NotOk\<close>: the response is not ok, \<^verbatim>\<open>continue\<close>;
  \<^item> \<open>NotJson\<close>: \<^verbatim>\<open>await res.json()\<close> raises, the body is not JSON;
  \<^item> \<open>NullDocument\<close>: the document is \<^verbatim>\<open>null\<close>, and \<^verbatim>\<open>data.channels\<close> raises;
  \<^item> \<open>NoChannels\<close>: any other document whose \<^verbatim>\<open>channels\<close> is absent or falsy,
    also a document that is a number, a string, a boolean or an array:
    \<^verbatim>\<open>data.channels || []\<close> is the empty list and the load goes on;
  \<^item> \<open>NotIterable\<close>: \<^verbatim>\<open>channels\<close> is truthy and cannot be iterated (a number,
    \<^verbatim>\<open>true\<close>, an object), and the \<^verbatim>\<open>for ... of\<close> raises;
  \<^item> \<open>Channels\<close>: \<^verbatim>\<open>channels\<close> is an array of channels, whose fields are strings or
    absent as the type \<^typ>\<open>channel\<close> has them. (An element that is \<^verbatim>\<open>null\<close>, or
    whose url, iso or name is a truthy value other than a string, raises where the load
    reads it; a list with such an element is not a value of the type.)
  The server is a function from paths to these outcomes.
\<close>

datatype fetched =
    Rejected
  | NotOk
  | NotJson
  | NullDocument
  | NoChannels
  | NotIterable
  | Channels "channel list"



text \<open>\<^verbatim>\<open>ch.url && ch.url.trim()\<close>; the empty string is the falsy result.\<close>

definition urlKey :: "channel \<Rightarrow> string" where
  "urlKey ch = (case url ch of None \<Rightarrow> [] | Some v \<Rightarrow> trim v)"

text \<open>
  The body of the inner loop, on the pair of \<^verbatim>\<open>allChannels\<close> and
  \<^verbatim>\<open>seenUrls\<close>:
  \<^verbatim>\<open>
  const url = ch.url && ch.url.trim();
  if (url && !seenUrls.has(url)) { seenUrls.add(url); allChannels.push(ch); }
  else if (!url) { allChannels.push(ch); }
  \<close>
\<close>

definition addChannel :: "channel list \<times> string set \<Rightarrow> channel \<Rightarrow> channel list \<times> string set" where
  "addChannel st ch =
     (let u = urlKey ch
      in if u \<noteq> [] \<and> u \<notin> snd st then (fst st @ [ch], insert u (snd st))
         else if u = [] then (fst st @ [ch], snd st)
         else st)"

text \<open>\<^verbatim>\<open>for (const ch of list) { ... }\<close>\<close>

definition addList :: "channel list \<Rightarrow> channel list \<times> string set \<Rightarrow> channel list \<times> string set" where
  "addList list st = foldl addChannel st list"

text \<open>
  One fragment: the fetch and what follows it inside the loops. An exception leaves the
  loops for the \<^verbatim>\<open>catch\<close> of the load: the result is \<open>None\<close>.
  \<^verbatim>\<open>
  const res = await fetch(path);
  if (!res.ok) continue;
  const data = await res.json();
  const list = data.channels || [];
  for (const ch of list) { ... }
  \<close>
\<close>

definition fetchInto :: "(string \<Rightarrow> fetched) \<Rightarrow> string \<Rightarrow> channel list \<times> string set
    \<Rightarrow> (channel list \<times> string set) option" where
  "fetchInto fetch path st =
     (case fetch path of
        Rejected \<Rightarrow> None
      | NotOk \<Rightarrow> Some st
      | NotJson \<Rightarrow> None
      | NullDocument \<Rightarrow> None
      | NoChannels \<Rightarrow> Some (addList [] st)
      | NotIterable \<Rightarrow> None
      | Channels list \<Rightarrow> Some (addList list st))"

text \<open>
  The loops of a country load:
  \<^verbatim>\<open>
  for (const code of codesToTry) {
    for (const sourcename of CHANNEL_SOURCE_NAMES) {
      const res = await fetch(`data/channels/${code}/${sourcename}.json`);
      ...
  \<close>
\<close>

fun loadSources :: "(string \<Rightarrow> fetched) \<Rightarrow> string \<Rightarrow> string list
    \<Rightarrow> channel list \<times> string set \<Rightarrow> (channel list \<times> string set) option" where
  "loadSources fetch code [] st = Some st"
| "loadSources fetch code (sourcename # rest) st =
     (case fetchInto fetch (''data/channels/'' @ code @ ''/'' @ sourcename @ ''.json'') st of
        None \<Rightarrow> None
      | Some st' \<Rightarrow> loadSources fetch code rest st')"

fun loadCodes :: "(string \<Rightarrow> fetched) \<Rightarrow> string list
    \<Rightarrow> channel list \<times> string set \<Rightarrow> (channel list \<times> string set) option" where
  "loadCodes fetch [] st = Some st"
| "loadCodes fetch (code # rest) st =
     (case loadSources fetch code CHANNEL_SOURCE_NAMES st of
        None \<Rightarrow> None
      | Some st' \<Rightarrow> loadCodes fetch rest st')"

text \<open>
  The loop of a category load, over
  \<^verbatim>\<open>CHANNEL_SOURCE_NAMES.map((s) => `data/cat_channels/${encodeURIComponent(categoryName)}/${s}.json`)\<close>.
  The encoded category name is the argument of \<open>categoryPaths\<close>.
\<close>

fun loadPaths :: "(string \<Rightarrow> fetched) \<Rightarrow> string list \<Rightarrow> channel list \<times> string set
    \<Rightarrow> (channel list \<times> string set) option" where
  "loadPaths fetch [] st = Some st"
| "loadPaths fetch (p # ps) st =
     (case fetchInto fetch p st of
        None \<Rightarrow> None
      | Some st' \<Rightarrow> loadPaths fetch ps st')"

definition categoryPaths :: "string \<Rightarrow> string list" where
  "categoryPaths encodedName =
     map (\<lambda>s. ''data/cat_channels/'' @ encodedName @ ''/'' @ s @ ''.json'') CHANNEL_SOURCE_NAMES"

text \<open>
  What a load shows: the empty state, or the list of channels, which is also what the
  callback \<^verbatim>\<open>onChannelsLoaded\<close> receives.
\<close>

datatype load_result = ShowEmpty | ShowList "channel list"

fun shown :: "load_result \<Rightarrow> channel list" where
  "shown ShowEmpty = []"
| "shown (ShowList cs) = cs"

text \<open>
  The end of both loads:
  \<^verbatim>\<open>
  const channels = allChannels.filter((ch) =>
    !isChannelInTrash((ch.iso || "").toUpperCase(), channelSlug(ch)));
  if (channels.length === 0) { emptyEl.hidden = false; return; }
  ... if (typeof onChannelsLoaded === "function") onChannelsLoaded(channels);
  } catch { loadingEl.hidden = true; emptyEl.hidden = false; }
  \<close>
\<close>

definition finishLoad :: "trashed list \<Rightarrow> (channel list \<times> string set) option \<Rightarrow> load_result" where
  "finishLoad trash r =
     (case r of
        None \<Rightarrow> ShowEmpty
      | Some st \<Rightarrow>
          (let channels = filter (\<lambda>ch. \<not> isChannelInTrash trash
                              (toUpperCase (orElse (iso ch) [])) (channelSlug ch)) (fst st)
           in if channels = [] then ShowEmpty else ShowList channels))"

text \<open>
  \<^verbatim>\<open>loadChannelsForCountry(countryCode, onChannelsLoaded)\<close> on a page that has the
  elements of the channel list, with the stored trash and the server as arguments.
  \<^verbatim>\<open>
  const codesToTry = getChannelLoadCodes(countryCode);
  if (codesToTry.length === 0) { loadingEl.hidden = true; emptyEl.hidden = false; return; }
  try { const allChannels = []; const seenUrls = new Set(); ...
  \<close>
\<close>

definition loadChannelsForCountry ::
    "trashed list \<Rightarrow> (string \<Rightarrow> fetched) \<Rightarrow> string option \<Rightarrow> load_result" where
  "loadChannelsForCountry trash fetch countryCode =
     (let codesToTry = getChannelLoadCodes countryCode
      in if codesToTry = [] then ShowEmpty
         else finishLoad trash (loadCodes fetch codesToTry ([], {})))"

definition loadChannelsForCategory ::
    "trashed list \<Rightarrow> (string \<Rightarrow> fetched) \<Rightarrow> string \<Rightarrow> load_result" where
  "loadChannelsForCategory trash fetch encodedName =
     finishLoad trash (loadPaths fetch (categoryPaths encodedName) ([], {}))"






section \<open>The channel list and its filters\<close>

text \<open>
  What a load writes into the list item of a channel, as far as the filters read it:
  the attributes \<^verbatim>\<open>data-type\<close> and \<^verbatim>\<open>data-source\<close>, the text of the
  \<^verbatim>\<open>.channel-item-name\<close> element, and the text of the \<^verbatim>\<open>.channel-item-source\<close>
  element where the item has one.
  \<^verbatim>\<open>
  const typeNorm = String(ch.type || "tv").toLowerCase().trim();
  const sourceNorm = (ch.source_name && String(ch.source_name).trim()) || "";
  li.setAttribute("data-type", typeNorm);
  li.setAttribute("data-source", sourceNorm);
  nameEl.textContent = ch.name || "Channel";
  if (sourceNorm || (ch.source && String(ch.source).trim())) {
    const src = ch.source && String(ch.source).trim();
    const text = sourceNorm || src || "";
    const truncated = text.length > 28 ? text.slice(0, 26) + "\<dots>" : text;
    sourceEl.textContent = truncated;
  \<close>
  The character appended to a truncated text is U+2026, which is above U+00FF: the model
  keeps the 26 characters before it. A search text of the model has no such character,
  so it occurs in the text of the element exactly when it occurs in these 26 characters.
\<close>

record list_item =
  data_type :: string
  data_source :: string
  name_text :: string
  source_text :: "string option"

text \<open>\<^verbatim>\<open>x && String(x).trim()\<close>, falsy as the empty string.\<close>

definition trimmedOrEmpty :: "string option \<Rightarrow> string" where
  "trimmedOrEmpty x = (case x of None \<Rightarrow> [] | Some v \<Rightarrow> trim v)"

definition truncated :: "string \<Rightarrow> string" where
  "truncated text = (if length text > 28 then take 26 text else text)"

definition renderItem :: "channel \<Rightarrow> list_item" where
  "renderItem ch =
     (let typeNorm = trim (toLowerCase (orElse (ctype ch) ''tv''));
          sourceNorm = trimmedOrEmpty (source_name ch);
          src = trimmedOrEmpty (source ch)
      in \<lparr>data_type = typeNorm,
          data_source = sourceNorm,
          name_text = orElse (name ch) ''Channel'',
          source_text =
            (if sourceNorm \<noteq> [] \<or> src \<noteq> []
             then Some (truncated (if sourceNorm \<noteq> [] then sourceNorm else src))
             else None)\<rparr>)"

text \<open>
  The state of the filter controls: the \<^verbatim>\<open>data-filter-value\<close> of the active type
  button and of the active source button (empty for "All" and when none is active), and
  the value of the text box.
\<close>

record filters =
  selectedType :: string
  selectedSource :: string
  filterText :: string

text \<open>
  \<^verbatim>\<open>
  const searchRaw = (filterTextEl && filterTextEl.value) ? filterTextEl.value.trim() : "";
  const search = searchRaw.toLowerCase();
  listEl.querySelectorAll(".channel-item").forEach((li) => {
    const type = li.getAttribute("data-type") || "";
    const source = li.getAttribute("data-source") || "";
    const typeOk = selectedType === "" || type === selectedType;
    const sourceOk = selectedSource === "" || (source && source === selectedSource);
    const nameStr = (nameEl && nameEl.textContent) ? nameEl.textContent.toLowerCase() : "";
    const sourceStr = (sourceEl && sourceEl.textContent) ? sourceEl.textContent.toLowerCase() : "";
    const textOk = search === "" || nameStr.includes(search) || sourceStr.includes(search);
    li.classList.toggle("filtered-out", !(typeOk && sourceOk && textOk));
  });
  \<close>
  \<open>filteredOut\<close> is the class of one item, \<open>applyChannelFilters\<close> the items left visible.
\<close>

definition filteredOut :: "filters \<Rightarrow> list_item \<Rightarrow> bool" where
  "filteredOut f li =
     (let search = toLowerCase (trim (filterText f));
          typeOk = (selectedType f = [] \<or> data_type li = selectedType f);
          sourceOk = (selectedSource f = []
                      \<or> (data_source li \<noteq> [] \<and> data_source li = selectedSource f));
          nameStr = toLowerCase (name_text li);
          sourceStr = (case source_text li of None \<Rightarrow> [] | Some t \<Rightarrow> toLowerCase t);
          textOk = (search = [] \<or> includesStr nameStr search \<or> includesStr sourceStr search)
      in \<not> (typeOk \<and> sourceOk \<and> textOk))"

definition applyChannelFilters :: "filters \<Rightarrow> list_item list \<Rightarrow> list_item list" where
  "applyChannelFilters f items = filter (\<lambda>li. \<not> filteredOut f li) items"

text \<open>
  The predicate of the filter engine as the specification words it, on the channel: the
  type filter is "all" or the type is the selected one, the source filter is "all" or the
  source name is the selected one, and the search text is empty or occurs, without regard
  to case, in the name or in the source name. An absent type counts as \<open>tv\<close> and an
  absent name as \<open>Channel\<close>, as the list shows them.
\<close>

definition keptBySpec :: "filters \<Rightarrow> channel \<Rightarrow> bool" where
  "keptBySpec f ch =
     ((selectedType f = [] \<or> orElse (ctype ch) ''tv'' = selectedType f)
      \<and> (selectedSource f = [] \<or> source_name ch = Some (selectedSource f))
      \<and> (filterText f = []
          \<or> includesStr (toLowerCase (orElse (name ch) ''Channel'')) (toLowerCase (filterText f))
          \<or> includesStr (toLowerCase (orElse (source_name ch) [])) (toLowerCase (filterText f))))"

section \<open>Example data\<close>

text \<open>A channel that has a name and nothing else.\<close>

definition named :: "string \<Rightarrow> channel" where
  "named n = \<lparr>iso = None, name = Some n, description = None, logo = None, ctype = None,
     url = None, source = None, source_name = None\<rparr>"

text \<open>
  A channel with an iso, a name and a url, as the fragments of the end-to-end example
  have them.
\<close>

definition chan :: "string \<Rightarrow> string \<Rightarrow> string \<Rightarrow> channel" where
  "chan i n u = \<lparr>iso = Some i, name = Some n, description = None, logo = None, ctype = None,
     url = Some u, source = None, source_name = None\<rparr>"

text \<open>A forest with a channel, a folder holding one channel, and a channel after the folder.\<close>

definition exampleForest :: "fav list" where
  "exampleForest =
     [ChannelEntry ''f_1'' ''FR'' ''tf1'' ''TF1'',
      FolderEntry ''f_2'' ''News'' [ChannelEntry ''f_3'' ''QA'' ''al-jazeera-english'' ''Al Jazeera English''],
      ChannelEntry ''f_4'' ''DE'' ''zdf'' ''ZDF'']"

text \<open>A forest with a channel inside a folder inside a folder.\<close>

definition nestedForest :: "fav list" where
  "nestedForest =
     [FolderEntry ''f_1'' ''Europe''
        [ChannelEntry ''f_2'' ''DE'' ''zdf'' ''ZDF'',
         FolderEntry ''f_3'' ''France'' [ChannelEntry ''f_4'' ''FR'' ''tf1'' ''TF1'']],
      ChannelEntry ''f_5'' ''QA'' ''al-jazeera-english'' ''Al Jazeera English'']"

text \<open>
  A forest whose only entry has the identifier that \<^verbatim>\<open>favId()\<close> makes of the clock
  text \<open>1700000000000\<close> and the random digits \<open>k3j9x2ab\<close>.
\<close>

definition collidingForest :: "fav list" where
  "collidingForest = [ChannelEntry ''f_1700000000000_k3j9x2ab'' ''FR'' ''tf1'' ''TF1'']"





text \<open>A server with one fragment of two channels.\<close>

definition twoChannelServer :: "string \<Rightarrow> fetched" where
  "twoChannelServer p =
     (if p = ''data/channels/FR/iptv-org.json''
      then Channels [chan ''FR'' ''TF1'' ''http://a'', chan ''FR'' ''Arte'' ''http://b'']
      else NotOk)"

text \<open>A radio channel with a source name of 33 characters.\<close>

definition radioOne :: channel where
  "radioOne = \<lparr>iso = Some ''GB'', name = Some ''Radio One'', description = None, logo = None,
     ctype = Some ''radio'', url = Some ''http://r1'', source = None,
     source_name = Some ''Community Radio Browser Directory''\<rparr>"

section \<open>Lemmas\<close>

subsection \<open>Strings and slugs\<close>

lemma toUpperCase_idem: "toUpperCase (toUpperCase s) = toUpperCase s"
proof -
  have c: "concat (map upperChar (upperChar c)) = upperChar c" for c
    by (auto simp: upperChar_def Let_def)
  show ?thesis
    by (induction s) (simp_all add: toUpperCase_def c)
qed

lemma toLowerCase_idem: "toLowerCase (toLowerCase s) = toLowerCase s"
  by (induction s) (auto simp: toLowerCase_def lowerChar_def Let_def)

lemma lowerChar_slugChar: "slugChar c \<Longrightarrow> lowerChar c = c"
  by (auto simp: slugChar_def lowerChar_def Let_def)

lemma toLowerCase_slug: "\<forall>c \<in> set s. slugChar c \<Longrightarrow> toLowerCase s = s"
  by (induction s) (simp_all add: toLowerCase_def lowerChar_slugChar)

lemma replaceRuns_head: "replaceRuns isDash (dropWhile isDash cs) = a # r \<Longrightarrow> \<not> isDash a"
  by (induction cs) (auto split: if_splits)

lemma replaceRuns_noDoubleDash: "noDoubleDash (replaceRuns isDash s)"
proof (induction isDash s rule: replaceRuns.induct)
  case 1
  show ?case by simp
next
  case (2 c cs)
  show ?case
  proof (cases "isDash c")
    case True
    with 2 have ih: "noDoubleDash (replaceRuns isDash (dropWhile isDash cs))" by simp
    show ?thesis
    proof (cases "replaceRuns isDash (dropWhile isDash cs)")
      case Nil
      with True show ?thesis by simp
    next
      case (Cons a r)
      with replaceRuns_head have "\<not> isDash a" by blast
      with True Cons ih show ?thesis by simp
    qed
  next
    case False
    with 2 have ih: "noDoubleDash (replaceRuns isDash cs)" by simp
    with False show ?thesis by (cases "replaceRuns isDash cs") simp_all
  qed
qed

lemma noDoubleDash_tl: "noDoubleDash (a # s) \<Longrightarrow> noDoubleDash s"
  by (cases s) simp_all

lemma noDoubleDash_last:
  "noDoubleDash (u @ [a]) \<Longrightarrow> isDash a \<Longrightarrow> u \<noteq> [] \<Longrightarrow> \<not> isDash (last u)"
proof (induction u)
  case Nil
  then show ?case by simp
next
  case (Cons b u)
  show ?case
  proof (cases u)
    case Nil
    with Cons.prems show ?thesis by simp
  next
    case (Cons c w)
    with Cons.prems Cons.IH show ?thesis by simp
  qed
qed

lemma trim_end_one:
  assumes "noDoubleDash t"
  shows "rev (dropWhile isDash (rev t)) = (if t \<noteq> [] \<and> isDash (last t) then butlast t else t)"
proof (cases t rule: rev_cases)
  case Nil
  then show ?thesis by simp
next
  case (snoc u a)
  show ?thesis
  proof (cases "isDash a")
    case False
    with snoc show ?thesis by simp
  next
    case True
    have "dropWhile isDash (rev u) = rev u"
    proof (cases "u = []")
      case True
      then show ?thesis by simp
    next
      case False
      with assms snoc True noDoubleDash_last have "\<not> isDash (last u)" by blast
      with False have "\<not> isDash (hd (rev u))" by (simp add: hd_rev)
      with False show ?thesis by (cases "rev u") simp_all
    qed
    with snoc True show ?thesis by simp
  qed
qed

lemma stripEdgeDash_trimDashes:
  assumes "noDoubleDash s"
  shows "stripEdgeDash s = trimDashes s"
proof (cases s)
  case Nil
  then show ?thesis by (simp add: stripEdgeDash_def trimDashes_def)
next
  case (Cons c r)
  show ?thesis
  proof (cases "isDash c")
    case False
    with Cons have "dropWhile isDash s = s" by simp
    with False Cons trim_end_one [OF assms] show ?thesis
      by (simp add: stripEdgeDash_def trimDashes_def)
  next
    case True
    from assms Cons have r: "noDoubleDash r" using noDoubleDash_tl by blast
    have "dropWhile isDash r = r"
    proof (cases r)
      case Nil
      then show ?thesis by simp
    next
      case (Cons d w)
      with assms \<open>s = c # r\<close> True have "\<not> isDash d" by simp
      with Cons show ?thesis by simp
    qed
    with True Cons have "dropWhile isDash s = r" by simp
    with True Cons trim_end_one [OF r] show ?thesis
      by (simp add: stripEdgeDash_def trimDashes_def)
  qed
qed

lemma slug_of_channel_word:
  "stripEdgeDash (replaceRuns isDash (filter slugChar (replaceRuns isWs (toLowerCase ''channel''))))
     = ''channel''"
  by code_simp

lemma set_replaceRuns: "set (replaceRuns P s) \<subseteq> insert CHR ''-'' (set s)"
proof (induction P s rule: replaceRuns.induct)
  case (1 P)
  show ?case by simp
next
  case (2 P c cs)
  show ?case
  proof (cases "P c")
    case True
    with 2 have "set (replaceRuns P (dropWhile P cs)) \<subseteq> insert CHR ''-'' (set (dropWhile P cs))"
      by simp
    moreover have "set (dropWhile P cs) \<subseteq> set cs"
      by (auto dest: set_dropWhileD)
    ultimately show ?thesis using True by auto
  next
    case False
    with 2 show ?thesis by auto
  qed
qed

lemma set_stripEdgeDash: "set (stripEdgeDash s) \<subseteq> set s"
  by (cases s) (auto simp: stripEdgeDash_def Let_def dest: in_set_butlastD)

lemma channelSlug_chars: "c \<in> set (channelSlug ch) \<Longrightarrow> slugChar c"
proof -
  assume c: "c \<in> set (channelSlug ch)"
  define t where "t = filter slugChar (replaceRuns isWs (toLowerCase (orElse (name ch) ''channel'')))"
  define s where "s = stripEdgeDash (replaceRuns isDash t)"
  have dash: "slugChar CHR ''-''" by (simp add: slugChar_def)
  have word: "x \<in> set ''channel'' \<Longrightarrow> slugChar x" for x
    by (auto simp: slugChar_def)
  have "set s \<subseteq> insert CHR ''-'' (set t)"
    unfolding s_def using set_stripEdgeDash set_replaceRuns by blast
  moreover have "\<forall>x \<in> set t. slugChar x" by (simp add: t_def)
  ultimately have sl: "\<forall>x \<in> set s. slugChar x"
    using dash by auto
  have cs: "channelSlug ch = (if s = [] then ''channel'' else s)"
    by (simp add: channelSlug_def Let_def s_def t_def)
  show ?thesis
  proof (cases "s = []")
    case True
    with c cs have "c \<in> set ''channel''" by simp
    then show ?thesis by (rule word)
  next
    case False
    with c cs sl show ?thesis by simp
  qed
qed

lemma channelSlug_lower: "toLowerCase (channelSlug ch) = channelSlug ch"
  by (rule toLowerCase_slug) (simp add: channelSlug_chars)

lemma channelSlug_nonempty: "channelSlug ch \<noteq> []"
  by (simp add: channelSlug_def Let_def)

subsection \<open>Favorites\<close>

lemma find_filter: "find P (filter Q xs) = find (\<lambda>x. Q x \<and> P x) xs"
  by (induction xs) simp_all


lemma allEntries_Cons: "allEntries (x # xs) = allEntries [x] @ allEntries xs"
  by (cases x) simp_all

lemma allEntries_append: "allEntries (xs @ ys) = allEntries xs @ allEntries ys"
  by (induction xs rule: allEntries.induct) simp_all

lemma entryId_in_allEntries: "x \<in> set xs \<Longrightarrow> entryId x \<in> entryId ` set (allEntries xs)"
proof (induction xs rule: allEntries.induct)
  case 1
  then show ?case by simp
next
  case (2 i a s n r)
  then show ?case by auto
next
  case (3 i n ch r)
  then show ?case by force
qed

lemma flattenFavoriteChannels_allEntries:
  "flattenFavoriteChannels items = filter isChannelEntry (allEntries items)"
  by (induction items rule: allEntries.induct) simp_all

lemma isChannelInFavorites_entries:
  "isChannelInFavorites items a s
     = (\<exists>e \<in> set (allEntries items). isChannelEntry e
          \<and> toUpperCase (entryIso e) = toUpperCase a \<and> toLowerCase (entrySlug e) = toLowerCase s)"
  by (auto simp: isChannelInFavorites_def list_ex_iff flattenFavoriteChannels_allEntries
        keyMatches_def)

lemma channel_in_allEntries_top:
  "isChannelEntry e \<Longrightarrow> e \<in> set items \<Longrightarrow> e \<in> set (allEntries items)"
  by (induction items rule: allEntries.induct) auto

lemma channel_in_allEntries_nested:
  "FolderEntry i n ch \<in> set items \<Longrightarrow> e \<in> set (allEntries ch) \<Longrightarrow> e \<in> set (allEntries items)"
  by (induction items rule: allEntries.induct) auto

lemma occursIn_allEntries:
  "occursIn e items \<Longrightarrow> isChannelEntry e \<Longrightarrow> e \<in> set (allEntries items)"
proof (induction rule: occursIn.induct)
  case (top e items)
  then show ?case by (simp add: channel_in_allEntries_top)
next
  case (nested i n ch items e)
  then show ?case by (blast intro: channel_in_allEntries_nested)
qed

lemma allEntries_occursIn:
  "e \<in> set (allEntries items) \<Longrightarrow> isChannelEntry e \<Longrightarrow> occursIn e items"
proof (induction items rule: allEntries.induct)
  case 1
  then show ?case by simp
next
  case (2 i a s n r)
  show ?case
  proof (cases "e = ChannelEntry i a s n")
    case True
    then show ?thesis by (simp add: occursIn.top)
  next
    case False
    with "2.prems" have "e \<in> set (allEntries r)" by simp
    from "2.IH" [OF this "2.prems"(2)] show ?thesis
    proof (cases rule: occursIn.cases)
      case top
      then show ?thesis by (simp add: occursIn.top)
    next
      case (nested j m ch)
      then have "FolderEntry j m ch \<in> set (ChannelEntry i a s n # r)" by simp
      from occursIn.nested [OF this nested(2)] show ?thesis .
    qed
  qed
next
  case (3 i n ch r)
  from "3.prems" have "e \<in> set (allEntries ch) \<or> e \<in> set (allEntries r)"
    by (cases e) auto
  then show ?case
  proof
    assume "e \<in> set (allEntries ch)"
    from "3.IH"(1) [OF this "3.prems"(2)] have "occursIn e ch" .
    moreover have "FolderEntry i n ch \<in> set (FolderEntry i n ch # r)" by simp
    ultimately show ?thesis by (rule occursIn.nested [rotated])
  next
    assume "e \<in> set (allEntries r)"
    from "3.IH"(2) [OF this "3.prems"(2)] show ?thesis
    proof (cases rule: occursIn.cases)
      case top
      then show ?thesis by (simp add: occursIn.top)
    next
      case (nested j m c)
      then have "FolderEntry j m c \<in> set (FolderEntry i n ch # r)" by simp
      from occursIn.nested [OF this nested(2)] show ?thesis .
    qed
  qed
qed

lemma spliceById_Some:
  "spliceById itemId xs = Some (m, r) \<Longrightarrow>
     entryId m = itemId \<and> mset (allEntries xs) = mset (allEntries [m]) + mset (allEntries r)"
proof (induction xs arbitrary: r)
  case Nil
  then show ?case by simp
next
  case (Cons x xs)
  show ?case
  proof (cases "entryId x = itemId")
    case True
    with Cons.prems have "x = m" "xs = r" by simp_all
    with True show ?thesis by (simp add: allEntries_Cons [of m r])
  next
    case False
    with Cons.prems obtain r' where s: "spliceById itemId xs = Some (m, r')" and r: "r = x # r'"
      by auto
    from Cons.IH [OF s] r show ?thesis
      by (simp add: allEntries_Cons [of x xs] allEntries_Cons [of x r'])
  qed
qed

lemma spliceById_None: "spliceById itemId xs = None \<Longrightarrow> itemId \<notin> entryId ` set xs"
  by (induction xs) (auto split: if_splits)

lemma removeFrom_Some:
  "(removeFrom itemId xs = Some (m, r) \<longrightarrow>
      entryId m = itemId \<and> mset (allEntries xs) = mset (allEntries [m]) + mset (allEntries r))"
  "(removeInFolders itemId xs = Some (m, r) \<longrightarrow>
      entryId m = itemId \<and> mset (allEntries xs) = mset (allEntries [m]) + mset (allEntries r))"
proof (induction itemId xs and itemId xs arbitrary: m r and m r
       rule: removeFrom_removeInFolders.induct)
  case (1 itemId arr)
  then show ?case
    by (auto split: option.splits dest: spliceById_Some)
next
  case (2 itemId)
  then show ?case by simp
next
  case (3 itemId i a s n r0)
  then show ?case by auto
next
  case (4 itemId i n ch r0)
  show ?case
  proof (cases "removeFrom itemId ch")
    case None
    with 4 show ?thesis by auto
  next
    case (Some p)
    obtain m' ch' where p: "p = (m', ch')" by (cases p)
    with Some 4(1) [of m' ch'] show ?thesis by auto
  qed
qed

lemma removeFrom_None:
  "(removeFrom itemId xs = None \<longrightarrow> itemId \<notin> entryId ` set (allEntries xs))"
  "(removeInFolders itemId xs = None \<longrightarrow> itemId \<notin> entryId ` set xs
      \<longrightarrow> itemId \<notin> entryId ` set (allEntries xs))"
proof (induction itemId xs and itemId xs rule: removeFrom_removeInFolders.induct)
  case (1 itemId arr)
  then show ?case
    by (auto split: option.splits dest: spliceById_None)
next
  case (2 itemId)
  then show ?case by simp
next
  case (3 itemId i a s n r0)
  then show ?case by auto
next
  case (4 itemId i n ch r0)
  then show ?case by (auto split: option.splits)
qed

lemma addToFolder_mset:
  "addToFolder folderId m xs = Some r \<Longrightarrow>
     mset (allEntries r) = mset (allEntries xs) + mset (allEntries [m])"
proof (induction folderId m xs arbitrary: r rule: addToFolder.induct)
  case (1 folderId moved)
  then show ?case by simp
next
  case (2 folderId moved i a s n r0)
  then show ?case by auto
next
  case (3 folderId moved i n ch r0)
  then show ?case
    by (auto simp: allEntries_append split: if_splits option.splits)
qed

lemma addToFolder_None:
  "(addToFolder folderId m xs = None) = (folderChildren folderId xs = None)"
  by (induction folderId m xs rule: addToFolder.induct) (auto split: option.splits)

lemma addToFolder_children:
  "addToFolder folderId m xs = Some r \<Longrightarrow> folderChildren folderId xs = Some c \<Longrightarrow>
     folderChildren folderId r = Some (c @ [m])"
proof (induction folderId m xs arbitrary: r rule: addToFolder.induct)
  case (1 folderId moved)
  then show ?case by simp
next
  case (2 folderId moved i a s n r0)
  from "2.prems"(1) obtain r' where a: "addToFolder folderId moved r0 = Some r'"
    and r: "r = ChannelEntry i a s n # r'" by auto
  from "2.prems"(2) have "folderChildren folderId r0 = Some c" by simp
  with "2.IH" [OF a] r show ?case by simp
next
  case (3 folderId moved i n ch r0)
  show ?case
  proof (cases "i = folderId")
    case True
    with "3.prems" show ?thesis by auto
  next
    case False
    show ?thesis
    proof (cases "addToFolder folderId moved ch")
      case (Some ch')
      with False "3.prems"(1) have r: "r = FolderEntry i n ch' # r0" by simp
      from Some have "folderChildren folderId ch \<noteq> None"
        using addToFolder_None [of folderId moved ch] by simp
      with False "3.prems"(2) have "folderChildren folderId ch = Some c" by auto
      with "3.IH"(1) [OF False Some] have "folderChildren folderId ch' = Some (c @ [moved])" .
      with False r show ?thesis by simp
    next
      case None
      with False "3.prems"(1) obtain r' where a: "addToFolder folderId moved r0 = Some r'"
        and r: "r = FolderEntry i n ch # r'" by auto
      from None have n: "folderChildren folderId ch = None"
        using addToFolder_None [of folderId moved ch] by simp
      with False "3.prems"(2) have "folderChildren folderId r0 = Some c" by simp
      with "3.IH"(2) [OF False None a] have "folderChildren folderId r' = Some (c @ [moved])" .
      with False r n show ?thesis by simp
    qed
  qed
qed








subsection \<open>Loading and trash\<close>














lemma isChannelInTrash_entries:
  "isChannelInTrash trash (toUpperCase i) (channelSlug ch)
     = (\<exists>e \<in> set trash. toUpperCase (trashIso e) = toUpperCase i
                      \<and> toLowerCase (trashSlug e) = channelSlug ch)"
  by (simp add: isChannelInTrash_def list_ex_iff toUpperCase_idem channelSlug_lower)

lemma shown_finishLoad:
  "shown (finishLoad trash r)
     = (case r of None \<Rightarrow> []
        | Some st \<Rightarrow> filter (\<lambda>ch. \<not> isChannelInTrash trash
                        (toUpperCase (orElse (iso ch) [])) (channelSlug ch)) (fst st))"
  by (cases r) (simp_all add: finishLoad_def Let_def)

lemma isChannelInTrash_after_add:
  "isChannelInTrash (addChannelToTrash x trash) (toUpperCase (orElse (iso x) [])) (channelSlug x)"
  by (auto simp: addChannelToTrash_def Let_def isChannelInTrash_def list_ex_iff toUpperCase_idem)

subsection \<open>Reordering\<close>






section \<open>Claims\<close>



text \<open>
  C2 (as stated): the slug is the name in lower case, with white space collapsed to a
  hyphen, every character outside \<^verbatim>\<open>[a-z0-9-]\<close> stripped and leading and trailing
  hyphens trimmed. For the name \<open>A & B\<close> these steps give \<open>a--b\<close>; the program gives
  \<open>a-b\<close>.
\<close>

theorem C2_slug_counterexample:
  "channelSlug (named ''A & B'') = ''a-b'' \<and> slugify_spec (Some ''A & B'') = ''a--b''"
  by code_simp

text \<open>
  C2 (amended): the slug depends on the name only and is the name in lower case, with each
  run of white space replaced by a hyphen, every character outside \<^verbatim>\<open>[a-z0-9-]\<close>
  stripped, each run of hyphens collapsed to one hyphen, and all leading and trailing
  hyphens trimmed; an absent or empty name and an empty result give \<open>channel\<close>. The
  three examples of the specification hold.
\<close>

theorem C2_slug:
  "channelSlug ch = slugify_collapsing (if name ch = Some [] then None else name ch)
   \<and> channelSlug (named ''Al Jazeera English'') = ''al-jazeera-english''
   \<and> channelSlug (named ''  '') = ''channel''
   \<and> channelSlug (named ''Canal+'') = ''canal''"
proof -
  have pipe: "stripEdgeDash (replaceRuns isDash x) = trimDashes (replaceRuns isDash x)" for x
    by (rule stripEdgeDash_trimDashes) (rule replaceRuns_noDoubleDash)
  have gen: "channelSlug ch = slugify_collapsing (if name ch = Some [] then None else name ch)"
  proof (cases "name ch")
    case None
    then show ?thesis
      by (simp add: channelSlug_def slugify_collapsing_def slug_of_channel_word)
  next
    case (Some nm)
    have word: "trimDashes (replaceRuns isDash (filter slugChar
        (replaceRuns isWs (toLowerCase ''channel'')))) = ''channel''"
      using slug_of_channel_word by (simp add: pipe)
    from Some show ?thesis
      by (simp add: channelSlug_def slugify_collapsing_def word pipe)
  qed
  have e1: "channelSlug (named ''Al Jazeera English'') = ''al-jazeera-english''" by code_simp
  have e2: "channelSlug (named ''  '') = ''channel''" by code_simp
  have e3: "channelSlug (named ''Canal+'') = ''canal''" by code_simp
  from gen e1 e2 e3 show ?thesis by simp
qed




text \<open>
  C4: every channel that a country load or a category load shows has no entry in the
  trash with its upper-cased iso and the slug of its name, whatever the server returns;
  a channel that has been put into the trash is shown by no load from then on.
\<close>

theorem C4_trash_filter:
  "(ch \<in> set (shown (loadChannelsForCountry trash fetch code))
      \<longrightarrow> \<not> isChannelInTrash trash (toUpperCase (orElse (iso ch) [])) (channelSlug ch)
          \<and> \<not> (\<exists>e \<in> set trash. toUpperCase (trashIso e) = toUpperCase (orElse (iso ch) [])
                              \<and> toLowerCase (trashSlug e) = channelSlug ch))
   \<and> (ch \<in> set (shown (loadChannelsForCategory trash fetch cat))
      \<longrightarrow> \<not> isChannelInTrash trash (toUpperCase (orElse (iso ch) [])) (channelSlug ch)
          \<and> \<not> (\<exists>e \<in> set trash. toUpperCase (trashIso e) = toUpperCase (orElse (iso ch) [])
                              \<and> toLowerCase (trashSlug e) = channelSlug ch))
   \<and> x \<notin> set (shown (loadChannelsForCountry (addChannelToTrash x trash) fetch code))
   \<and> x \<notin> set (shown (loadChannelsForCategory (addChannelToTrash x trash) fetch cat))
   \<and> x \<notin> set (shown (loadChannelsForCountry (addChannelToTrash y (addChannelToTrash x trash))
                       fetch code))"
proof -
  have fin: "c \<in> set (shown (finishLoad t r))
      \<Longrightarrow> \<not> isChannelInTrash t (toUpperCase (orElse (iso c) [])) (channelSlug c)" for c t r
    by (cases r) (auto simp: shown_finishLoad)
  have country: "c \<in> set (shown (loadChannelsForCountry t fetch code))
      \<Longrightarrow> \<not> isChannelInTrash t (toUpperCase (orElse (iso c) [])) (channelSlug c)" for c t
    by (cases "getChannelLoadCodes code = []")
       (auto simp: loadChannelsForCountry_def Let_def dest: fin)
  have category: "c \<in> set (shown (loadChannelsForCategory t fetch cat))
      \<Longrightarrow> \<not> isChannelInTrash t (toUpperCase (orElse (iso c) [])) (channelSlug c)" for c t
    by (auto simp: loadChannelsForCategory_def dest: fin)
  have keep: "isChannelInTrash t a s \<Longrightarrow> isChannelInTrash (addChannelToTrash y t) a s" for t a s
    by (auto simp: addChannelToTrash_def Let_def isChannelInTrash_def list_ex_iff)
  from country [of ch trash] category [of ch trash]
    country [of x "addChannelToTrash x trash"] category [of x "addChannelToTrash x trash"]
    country [of x "addChannelToTrash y (addChannelToTrash x trash)"]
    isChannelInTrash_after_add [of x trash]
    keep [OF isChannelInTrash_after_add [of x trash]]
    isChannelInTrash_entries [of trash "orElse (iso ch) []" ch]
  show ?thesis by blast
qed

text \<open>
  A load of two channels with one of them in the trash, under an iso and a slug written
  in the other case.
\<close>

theorem C4_trash_filter_witness:
  "chan ''FR'' ''Arte'' ''http://b''
      \<in> set (shown (loadChannelsForCountry [TrashEntry ''fr'' ''TF1'' ''TF1''] twoChannelServer (Some ''FR'')))
   \<and> \<not> isChannelInTrash [TrashEntry ''fr'' ''TF1'' ''TF1'']
         (toUpperCase (orElse (iso (chan ''FR'' ''Arte'' ''http://b'')) []))
         (channelSlug (chan ''FR'' ''Arte'' ''http://b''))
   \<and> shown (loadChannelsForCountry [TrashEntry ''fr'' ''TF1'' ''TF1''] twoChannelServer (Some ''FR''))
       = [chan ''FR'' ''Arte'' ''http://b'']
   \<and> shown (loadChannelsForCountry [] twoChannelServer (Some ''FR''))
       = [chan ''FR'' ''TF1'' ''http://a'', chan ''FR'' ''Arte'' ''http://b'']
   \<and> chan ''FR'' ''TF1'' ''http://a''
      \<notin> set (shown (loadChannelsForCountry (addChannelToTrash (chan ''FR'' ''TF1'' ''http://a'') [])
                      twoChannelServer (Some ''FR'')))"
proof -
  have s1: "shown (loadChannelsForCountry [TrashEntry ''fr'' ''TF1'' ''TF1''] twoChannelServer (Some ''FR''))
       = [chan ''FR'' ''Arte'' ''http://b'']" by code_simp
  have s2: "shown (loadChannelsForCountry [] twoChannelServer (Some ''FR''))
       = [chan ''FR'' ''TF1'' ''http://a'', chan ''FR'' ''Arte'' ''http://b'']" by code_simp
  from s1 have h: "chan ''FR'' ''Arte'' ''http://b''
      \<in> set (shown (loadChannelsForCountry [TrashEntry ''fr'' ''TF1'' ''TF1''] twoChannelServer (Some ''FR'')))"
    by simp
  from h C4_trash_filter [of "chan ''FR'' ''Arte'' ''http://b''" "[TrashEntry ''fr'' ''TF1'' ''TF1'']"
    twoChannelServer "Some ''FR''"]
  have r1: "\<not> isChannelInTrash [TrashEntry ''fr'' ''TF1'' ''TF1'']
         (toUpperCase (orElse (iso (chan ''FR'' ''Arte'' ''http://b'')) []))
         (channelSlug (chan ''FR'' ''Arte'' ''http://b''))" by blast
  from C4_trash_filter [of _ "[]" twoChannelServer "Some ''FR''" _ _ "chan ''FR'' ''TF1'' ''http://a''"]
  have r2: "chan ''FR'' ''TF1'' ''http://a''
      \<notin> set (shown (loadChannelsForCountry (addChannelToTrash (chan ''FR'' ''TF1'' ''http://a'') [])
                      twoChannelServer (Some ''FR'')))" by blast
  from h r1 s1 s2 r2 show ?thesis by blast
qed

text \<open>
  C5: for every feed, iso and slug, resolving a channel entry returns the first channel
  of the feed whose iso equals the given iso and whose slug, computed from its name,
  equals the given slug, both without regard to case; it reports not-found exactly when
  no channel of the feed has that identity. A channel record has no slug field. The
  search by slug that it ends with returns, used by itself, the first channel of its
  feed with that slug.
\<close>

theorem C5_resolution:
  "resolveFavoriteChannel feed (ChannelEntry i a s n)
     = find (\<lambda>ch. toUpperCase (orElse (iso ch) []) = toUpperCase a
                \<and> toLowerCase (channelSlug ch) = toLowerCase s) feed
   \<and> ((resolveFavoriteChannel feed (ChannelEntry i a s n) = None)
        = (\<not> (\<exists>ch \<in> set feed. toUpperCase (orElse (iso ch) []) = toUpperCase a
                \<and> toLowerCase (channelSlug ch) = toLowerCase s)))
   \<and> findChannelBySlug feed (Some s)
     = find (\<lambda>ch. toLowerCase (channelSlug ch) = toLowerCase s) feed"
proof -
  have slug: "findChannelBySlug xs (Some s)
     = find (\<lambda>ch. toLowerCase (channelSlug ch) = toLowerCase s) xs" for xs
  proof (cases "s = []")
    case True
    have "toLowerCase (channelSlug ch) \<noteq> toLowerCase []" for ch
      by (simp add: channelSlug_lower channelSlug_nonempty toLowerCase_def)
    then have "find (\<lambda>ch. toLowerCase (channelSlug ch) = toLowerCase []) xs = None"
      by (simp add: find_None_iff)
    with True show ?thesis by (simp add: findChannelBySlug_def)
  next
    case False
    then show ?thesis
      by (simp add: findChannelBySlug_def channelSlug_lower)
  qed
  have eq: "resolveFavoriteChannel feed (ChannelEntry i a s n)
     = find (\<lambda>ch. toUpperCase (orElse (iso ch) []) = toUpperCase a
                \<and> toLowerCase (channelSlug ch) = toLowerCase s) feed"
    by (simp only: resolveFavoriteChannel.simps slug find_filter)
  have none: "(resolveFavoriteChannel feed (ChannelEntry i a s n) = None)
        = (\<not> (\<exists>ch \<in> set feed. toUpperCase (orElse (iso ch) []) = toUpperCase a
                \<and> toLowerCase (channelSlug ch) = toLowerCase s))"
    unfolding eq by (auto simp: find_None_iff)
  from eq none slug [of feed] show ?thesis by blast
qed

text \<open>
  C6 (as stated): a channel is kept exactly when the type and source filters let it
  through and the search text is empty or occurs in its name or in its source name. The
  search text \<open>directory\<close> occurs in the source name \<open>Community Radio Browser Directory\<close>,
  and the filter engine hides the channel: it searches the text of the list item, which
  holds the first 26 characters of a source name longer than 28.
\<close>

theorem C6_filter_counterexample:
  "keptBySpec \<lparr>selectedType = [], selectedSource = [], filterText = ''directory''\<rparr> radioOne
   \<and> filteredOut \<lparr>selectedType = [], selectedSource = [], filterText = ''directory''\<rparr>
        (renderItem radioOne)"
  by code_simp

text \<open>
  C6 (amended): a channel of the loaded list is kept by the filter engine if and only if
  the type filter is "all" or the type of the channel, lower-cased and trimmed and \<open>tv\<close>
  when absent, is the selected type; and the source filter is "all" or the trimmed source
  name of the channel is the selected source; and the trimmed, lower-cased search text is
  empty or occurs in the lower-cased name shown (the name, or \<open>Channel\<close>) or in the
  lower-cased source label shown: the trimmed source name, or the trimmed source where
  there is no source name, cut to its first 26 characters when it is longer than 28.
\<close>

theorem C6_filter:
  "(\<not> filteredOut f (renderItem ch))
     = ((selectedType f = [] \<or> trim (toLowerCase (orElse (ctype ch) ''tv'')) = selectedType f)
        \<and> (selectedSource f = [] \<or> trimmedOrEmpty (source_name ch) = selectedSource f)
        \<and> (toLowerCase (trim (filterText f)) = []
            \<or> includesStr (toLowerCase (orElse (name ch) ''Channel''))
                 (toLowerCase (trim (filterText f)))
            \<or> includesStr
                 (toLowerCase (truncated
                    (if trimmedOrEmpty (source_name ch) \<noteq> [] then trimmedOrEmpty (source_name ch)
                     else trimmedOrEmpty (source ch))))
                 (toLowerCase (trim (filterText f)))))
   \<and> applyChannelFilters f (map renderItem chs)
       = map renderItem (filter (\<lambda>c. \<not> filteredOut f (renderItem c)) chs)"
proof -
  have empty: "includesStr (toLowerCase (truncated [])) s = (s = [])" for s
    by (simp add: truncated_def toLowerCase_def)
  have one: "(\<not> filteredOut f (renderItem ch))
     = ((selectedType f = [] \<or> trim (toLowerCase (orElse (ctype ch) ''tv'')) = selectedType f)
        \<and> (selectedSource f = [] \<or> trimmedOrEmpty (source_name ch) = selectedSource f)
        \<and> (toLowerCase (trim (filterText f)) = []
            \<or> includesStr (toLowerCase (orElse (name ch) ''Channel''))
                 (toLowerCase (trim (filterText f)))
            \<or> includesStr
                 (toLowerCase (truncated
                    (if trimmedOrEmpty (source_name ch) \<noteq> [] then trimmedOrEmpty (source_name ch)
                     else trimmedOrEmpty (source ch))))
                 (toLowerCase (trim (filterText f)))))"
  proof (cases "trimmedOrEmpty (source_name ch) = []")
    case True
    note sn = this
    show ?thesis
    proof (cases "trimmedOrEmpty (source ch) = []")
      case True
      with sn show ?thesis
        by (auto simp: filteredOut_def renderItem_def Let_def empty)
    next
      case False
      with sn show ?thesis
        by (auto simp: filteredOut_def renderItem_def Let_def)
    qed
  next
    case False
    then show ?thesis
      by (auto simp: filteredOut_def renderItem_def Let_def)
  qed
  have all: "applyChannelFilters f (map renderItem chs)
       = map renderItem (filter (\<lambda>c. \<not> filteredOut f (renderItem c)) chs)"
    by (simp add: applyChannelFilters_def filter_map comp_def)
  from one all show ?thesis by blast
qed

text \<open>
  The type filter on \<open>radio\<close> and a search text between spaces, over a list of two
  channels.
\<close>

theorem C6_filter_witness:
  "\<not> filteredOut \<lparr>selectedType = ''radio'', selectedSource = [], filterText = '' Browser ''\<rparr>
        (renderItem radioOne)
   \<and> filteredOut \<lparr>selectedType = ''radio'', selectedSource = [], filterText = '' Browser ''\<rparr>
        (renderItem (chan ''FR'' ''TF1'' ''http://a''))
   \<and> applyChannelFilters
        \<lparr>selectedType = ''radio'', selectedSource = [], filterText = '' Browser ''\<rparr>
        (map renderItem [chan ''FR'' ''TF1'' ''http://a'', radioOne])
      = [renderItem radioOne]"
proof -
  note eq = C6_filter [THEN conjunct1]
  have a: "\<not> filteredOut \<lparr>selectedType = ''radio'', selectedSource = [], filterText = '' Browser ''\<rparr>
        (renderItem radioOne)"
    unfolding eq by code_simp
  have b: "\<not> (\<not> filteredOut \<lparr>selectedType = ''radio'', selectedSource = [], filterText = '' Browser ''\<rparr>
        (renderItem (chan ''FR'' ''TF1'' ''http://a'')))"
    unfolding eq by code_simp
  from a b show ?thesis by (simp add: applyChannelFilters_def)
qed



text \<open>
  C8: moving an entry to a folder is a no-op when no entry of the forest has the
  identifier. When one has, the entry is taken out of the forest with everything below
  it; if the folder identifier resolves to a folder of what is left, the entry becomes
  the last child of that folder, and otherwise it becomes the last top-level entry. In
  every case the entries of the forest before and after are the same multiset.
\<close>

theorem C8_move_to_folder:
  "(itemId \<notin> entryId ` set (allEntries items)
      \<longrightarrow> moveFavoriteToFolder itemId folderId items = items)
   \<and> (itemId \<in> entryId ` set (allEntries items)
      \<longrightarrow> (\<exists>m rest. removeFrom itemId items = Some (m, rest) \<and> entryId m = itemId
             \<and> mset (allEntries items) = mset (allEntries [m]) + mset (allEntries rest)
             \<and> (case folderChildren folderId rest of
                  Some c \<Rightarrow> folderChildren folderId (moveFavoriteToFolder itemId folderId items)
                             = Some (c @ [m])
                | None \<Rightarrow> moveFavoriteToFolder itemId folderId items = rest @ [m])))
   \<and> mset (allEntries (moveFavoriteToFolder itemId folderId items)) = mset (allEntries items)"
proof (cases "removeFrom itemId items")
  case None
  with removeFrom_None(1) [of itemId items]
  have "itemId \<notin> entryId ` set (allEntries items)" by simp
  with None show ?thesis by (simp add: moveFavoriteToFolder_def)
next
  case (Some p)
  obtain m rest where p: "p = (m, rest)" by (cases p)
  with Some have rm: "removeFrom itemId items = Some (m, rest)" by simp
  with removeFrom_Some(1) [of itemId items m rest]
  have idm: "entryId m = itemId"
    and ms: "mset (allEntries items) = mset (allEntries [m]) + mset (allEntries rest)"
    by simp_all
  have "m \<in> set [m]" by simp
  then have "entryId m \<in> entryId ` set (allEntries [m])" by (rule entryId_in_allEntries)
  moreover from ms have "set (allEntries items) = set (allEntries [m]) \<union> set (allEntries rest)"
    by (metis mset_append set_append set_mset_mset)
  ultimately have inn: "itemId \<in> entryId ` set (allEntries items)"
    using idm by auto
  show ?thesis
  proof (cases "addToFolder folderId m rest")
    case None
    then have fc: "folderChildren folderId rest = None" by (simp add: addToFolder_None)
    from None rm have mv: "moveFavoriteToFolder itemId folderId items = rest @ [m]"
      by (simp add: moveFavoriteToFolder_def)
    with rm idm ms fc inn show ?thesis by (simp add: allEntries_append)
  next
    case (Some r)
    then obtain c where fc: "folderChildren folderId rest = Some c"
      using addToFolder_None [of folderId m rest] by (cases "folderChildren folderId rest") auto
    from Some rm have mv: "moveFavoriteToFolder itemId folderId items = r"
      by (simp add: moveFavoriteToFolder_def)
    from addToFolder_children [OF Some fc] addToFolder_mset [OF Some] mv rm idm ms fc inn
    show ?thesis by simp
  qed
qed

text \<open>
  On the example forest: an unknown identifier, the last channel moved into the folder,
  the channel of the folder moved to a folder that does not exist, and the folder moved
  into itself, which puts it last at the top level.
\<close>

theorem C8_move_to_folder_witness:
  "''f_9'' \<notin> entryId ` set (allEntries exampleForest)
   \<and> moveFavoriteToFolder ''f_9'' ''f_2'' exampleForest = exampleForest
   \<and> ''f_4'' \<in> entryId ` set (allEntries exampleForest)
   \<and> removeFrom ''f_4'' exampleForest
       = Some (ChannelEntry ''f_4'' ''DE'' ''zdf'' ''ZDF'',
               [ChannelEntry ''f_1'' ''FR'' ''tf1'' ''TF1'',
                FolderEntry ''f_2'' ''News''
                  [ChannelEntry ''f_3'' ''QA'' ''al-jazeera-english'' ''Al Jazeera English'']])
   \<and> folderChildren ''f_2'' (moveFavoriteToFolder ''f_4'' ''f_2'' exampleForest)
       = Some [ChannelEntry ''f_3'' ''QA'' ''al-jazeera-english'' ''Al Jazeera English'',
               ChannelEntry ''f_4'' ''DE'' ''zdf'' ''ZDF'']
   \<and> moveFavoriteToFolder ''f_3'' ''f_7'' exampleForest
       = [ChannelEntry ''f_1'' ''FR'' ''tf1'' ''TF1'', FolderEntry ''f_2'' ''News'' [],
          ChannelEntry ''f_4'' ''DE'' ''zdf'' ''ZDF'',
          ChannelEntry ''f_3'' ''QA'' ''al-jazeera-english'' ''Al Jazeera English'']
   \<and> moveFavoriteToFolder ''f_2'' ''f_2'' exampleForest
       = [ChannelEntry ''f_1'' ''FR'' ''tf1'' ''TF1'', ChannelEntry ''f_4'' ''DE'' ''zdf'' ''ZDF'',
          FolderEntry ''f_2'' ''News''
            [ChannelEntry ''f_3'' ''QA'' ''al-jazeera-english'' ''Al Jazeera English'']]"
proof -
  have self: "moveFavoriteToFolder ''f_2'' ''f_2'' exampleForest
       = [ChannelEntry ''f_1'' ''FR'' ''tf1'' ''TF1'', ChannelEntry ''f_4'' ''DE'' ''zdf'' ''ZDF'',
          FolderEntry ''f_2'' ''News''
            [ChannelEntry ''f_3'' ''QA'' ''al-jazeera-english'' ''Al Jazeera English'']]"
    by code_simp
  have h1: "''f_9'' \<notin> entryId ` set (allEntries exampleForest)" by code_simp
  have h2: "''f_4'' \<in> entryId ` set (allEntries exampleForest)" by code_simp
  have h3: "''f_3'' \<in> entryId ` set (allEntries exampleForest)" by code_simp
  have e2: "removeFrom ''f_4'' exampleForest
       = Some (ChannelEntry ''f_4'' ''DE'' ''zdf'' ''ZDF'',
               [ChannelEntry ''f_1'' ''FR'' ''tf1'' ''TF1'',
                FolderEntry ''f_2'' ''News''
                  [ChannelEntry ''f_3'' ''QA'' ''al-jazeera-english'' ''Al Jazeera English'']])"
    by code_simp
  have c2: "folderChildren ''f_2''
        [ChannelEntry ''f_1'' ''FR'' ''tf1'' ''TF1'',
         FolderEntry ''f_2'' ''News''
           [ChannelEntry ''f_3'' ''QA'' ''al-jazeera-english'' ''Al Jazeera English'']]
       = Some [ChannelEntry ''f_3'' ''QA'' ''al-jazeera-english'' ''Al Jazeera English'']"
    by code_simp
  have e3: "removeFrom ''f_3'' exampleForest
       = Some (ChannelEntry ''f_3'' ''QA'' ''al-jazeera-english'' ''Al Jazeera English'',
               [ChannelEntry ''f_1'' ''FR'' ''tf1'' ''TF1'', FolderEntry ''f_2'' ''News'' [],
                ChannelEntry ''f_4'' ''DE'' ''zdf'' ''ZDF''])"
    by code_simp
  have c3: "folderChildren ''f_7''
        [ChannelEntry ''f_1'' ''FR'' ''tf1'' ''TF1'', FolderEntry ''f_2'' ''News'' [],
         ChannelEntry ''f_4'' ''DE'' ''zdf'' ''ZDF''] = None"
    by code_simp
  from h1 C8_move_to_folder [of "''f_9''" exampleForest "''f_2''"]
  have r1: "moveFavoriteToFolder ''f_9'' ''f_2'' exampleForest = exampleForest" by blast
  from h2 C8_move_to_folder [of "''f_4''" exampleForest "''f_2''"] e2 c2
  have r2: "folderChildren ''f_2'' (moveFavoriteToFolder ''f_4'' ''f_2'' exampleForest)
       = Some [ChannelEntry ''f_3'' ''QA'' ''al-jazeera-english'' ''Al Jazeera English'',
               ChannelEntry ''f_4'' ''DE'' ''zdf'' ''ZDF'']" by auto
  from h3 C8_move_to_folder [of "''f_3''" exampleForest "''f_7''"] e3 c3
  have r3: "moveFavoriteToFolder ''f_3'' ''f_7'' exampleForest
       = [ChannelEntry ''f_1'' ''FR'' ''tf1'' ''TF1'', FolderEntry ''f_2'' ''News'' [],
          ChannelEntry ''f_4'' ''DE'' ''zdf'' ''ZDF'',
          ChannelEntry ''f_3'' ''QA'' ''al-jazeera-english'' ''Al Jazeera English'']" by auto
  from h1 h2 e2 r1 r2 r3 self show ?thesis by blast
qed

text \<open>
  C9 (as stated): the new channel entry has a fresh id. The id is what
  \<^verbatim>\<open>favId()\<close> makes of the clock and a random number, and it is not compared with
  the ids of the forest: when the forest holds an entry with the id made of the same
  clock text and random digits, the new entry has the id of that entry.
\<close>

theorem C9_add_favorite_counterexample:
  "addChannelToFavorites ''1700000000000'' ''k3j9x2ab'' (chan ''FR'' ''Arte'' ''http://b'')
       collidingForest
     = collidingForest @ [ChannelEntry ''f_1700000000000_k3j9x2ab'' ''FR'' ''arte'' ''Arte'']
   \<and> favId ''1700000000000'' ''k3j9x2ab'' \<in> entryId ` set (allEntries collidingForest)
   \<and> \<not> distinct (map entryId (allEntries
          (addChannelToFavorites ''1700000000000'' ''k3j9x2ab'' (chan ''FR'' ''Arte'' ''http://b'')
             collidingForest)))"
  by code_simp

text \<open>
  C9 (amended): adding a channel leaves the store unchanged when a channel entry with its
  composite key (upper-cased iso, slug) occurs anywhere in the forest, at the top level or
  inside folders to any depth; otherwise one channel entry is appended to the top-level
  list, with the id that \<^verbatim>\<open>favId()\<close> makes of the clock and a random number. That id
  is not checked against the forest: when it is not the id of an entry of the forest, the
  ids of the forest stay distinct. Adding the same channel twice is adding it once, and
  a forest without the key has exactly one entry with it afterwards.
\<close>

theorem C9_add_favorite:
  "((\<exists>e \<in> set (allEntries items). isChannelEntry e
        \<and> toUpperCase (entryIso e) = toUpperCase (orElse (iso ch) [])
        \<and> toLowerCase (entrySlug e) = channelSlug ch)
      \<longrightarrow> addChannelToFavorites now rnd ch items = items)
   \<and> (\<not> (\<exists>e \<in> set (allEntries items). isChannelEntry e
        \<and> toUpperCase (entryIso e) = toUpperCase (orElse (iso ch) [])
        \<and> toLowerCase (entrySlug e) = channelSlug ch)
      \<longrightarrow> addChannelToFavorites now rnd ch items
            = items @ [ChannelEntry (favId now rnd) (toUpperCase (orElse (iso ch) []))
                         (channelSlug ch) (orElse (name ch) ''Channel'')])
   \<and> (isChannelEntry x \<longrightarrow> (x \<in> set (allEntries items)) = occursIn x items)
   \<and> isChannelInFavorites items a s
       = (\<exists>e \<in> set (allEntries items). isChannelEntry e
            \<and> toUpperCase (entryIso e) = toUpperCase a \<and> toLowerCase (entrySlug e) = toLowerCase s)
   \<and> addChannelToFavorites now2 rnd2 ch (addChannelToFavorites now rnd ch items)
       = addChannelToFavorites now rnd ch items
   \<and> keyCount (addChannelToFavorites now2 rnd2 ch (addChannelToFavorites now rnd ch items))
         (toUpperCase (orElse (iso ch) [])) (channelSlug ch)
       = (if keyCount items (toUpperCase (orElse (iso ch) [])) (channelSlug ch) = 0 then 1
          else keyCount items (toUpperCase (orElse (iso ch) [])) (channelSlug ch))
   \<and> (favId now rnd \<notin> entryId ` set (allEntries items) \<and> distinct (map entryId (allEntries items))
      \<longrightarrow> distinct (map entryId (allEntries (addChannelToFavorites now rnd ch items))))"
proof -
  define k where "k = toUpperCase (orElse (iso ch) [])"
  define sl where "sl = channelSlug ch"
  define e0 where "e0 = ChannelEntry (favId now rnd) k sl (orElse (name ch) ''Channel'')"
  define present where "present xs = (\<exists>e \<in> set (allEntries xs). isChannelEntry e
        \<and> toUpperCase (entryIso e) = k \<and> toLowerCase (entrySlug e) = sl)" for xs
  have kk: "toUpperCase k = k" by (simp add: k_def toUpperCase_idem)
  have ss: "toLowerCase sl = sl" by (simp add: sl_def channelSlug_lower)
  have inf: "isChannelInFavorites xs k sl = present xs" for xs
    by (simp add: isChannelInFavorites_entries present_def kk ss)
  have cnt: "keyCount xs k sl
      = length (filter (\<lambda>e. isChannelEntry e \<and> toUpperCase (entryIso e) = k
                            \<and> toLowerCase (entrySlug e) = sl) (allEntries xs))" for xs
    by (simp add: keyCount_def kk ss)
  have zero: "(keyCount xs k sl = 0) = (\<not> present xs)" for xs
    by (auto simp: cnt present_def filter_empty_conv)
  have a: "present items \<longrightarrow> addChannelToFavorites now rnd ch items = items"
    by (simp add: addChannelToFavorites_def Let_def k_def [symmetric] sl_def [symmetric] inf)
  have b: "\<not> present items \<longrightarrow> addChannelToFavorites now rnd ch items = items @ [e0]"
    by (simp add: addChannelToFavorites_def Let_def k_def [symmetric] sl_def [symmetric] inf e0_def)
  have e0all: "allEntries (xs @ [e0]) = allEntries xs @ [e0]" for xs
    by (simp add: allEntries_append e0_def)
  have after: "present (addChannelToFavorites now rnd ch items)"
  proof (cases "present items")
    case True
    with a show ?thesis by simp
  next
    case False
    with b have "addChannelToFavorites now rnd ch items = items @ [e0]" by simp
    moreover have "present (items @ [e0])"
      unfolding present_def e0all by (simp add: e0_def kk ss)
    ultimately show ?thesis by simp
  qed
  have c: "addChannelToFavorites now2 rnd2 ch (addChannelToFavorites now rnd ch items)
       = addChannelToFavorites now rnd ch items"
    using after
    by (simp add: addChannelToFavorites_def [of now2] Let_def k_def [symmetric] sl_def [symmetric] inf)
  have d: "keyCount (addChannelToFavorites now rnd ch items) k sl
       = (if keyCount items k sl = 0 then 1 else keyCount items k sl)"
  proof (cases "present items")
    case True
    with a zero [of items] show ?thesis by simp
  next
    case False
    with b have r: "addChannelToFavorites now rnd ch items = items @ [e0]" by simp
    from False zero [of items] have z: "keyCount items k sl = 0" by simp
    have "keyCount (items @ [e0]) k sl = keyCount items k sl + 1"
      unfolding cnt e0all by (simp add: e0_def kk ss)
    with r z show ?thesis by simp
  qed
  have f: "favId now rnd \<notin> entryId ` set (allEntries items) \<and> distinct (map entryId (allEntries items))
      \<longrightarrow> distinct (map entryId (allEntries (addChannelToFavorites now rnd ch items)))"
  proof (cases "present items")
    case True
    with a show ?thesis by simp
  next
    case False
    with b have "addChannelToFavorites now rnd ch items = items @ [e0]" by simp
    then show ?thesis by (auto simp: allEntries_append e0_def)
  qed
  have g: "isChannelEntry x \<longrightarrow> (x \<in> set (allEntries items)) = occursIn x items"
    using occursIn_allEntries [of x items] allEntries_occursIn [of x items] by blast
  from a b c d f g isChannelInFavorites_entries [of items a s]
  show ?thesis
    unfolding c present_def k_def sl_def e0_def by blast
qed

text \<open>
  On a forest with a channel two folders deep: a channel whose key is that of the nested
  entry, written in the other case, and a channel whose key is new, added twice.
\<close>

theorem C9_add_favorite_witness:
  "(\<exists>e \<in> set (allEntries nestedForest). isChannelEntry e
        \<and> toUpperCase (entryIso e) = toUpperCase (orElse (iso (chan ''fr'' ''TF1'' ''http://a'')) [])
        \<and> toLowerCase (entrySlug e) = channelSlug (chan ''fr'' ''TF1'' ''http://a''))
   \<and> addChannelToFavorites ''1700000000001'' ''q7'' (chan ''fr'' ''TF1'' ''http://a'') nestedForest
       = nestedForest
   \<and> occursIn (ChannelEntry ''f_4'' ''FR'' ''tf1'' ''TF1'') nestedForest
   \<and> \<not> (\<exists>e \<in> set (allEntries nestedForest). isChannelEntry e
        \<and> toUpperCase (entryIso e) = toUpperCase (orElse (iso (chan ''fr'' ''Canal+'' ''http://c'')) [])
        \<and> toLowerCase (entrySlug e) = channelSlug (chan ''fr'' ''Canal+'' ''http://c''))
   \<and> addChannelToFavorites ''1700000000001'' ''q7'' (chan ''fr'' ''Canal+'' ''http://c'') nestedForest
       = nestedForest @ [ChannelEntry ''f_1700000000001_q7'' ''FR'' ''canal'' ''Canal+'']
   \<and> keyCount (addChannelToFavorites ''1700000000002'' ''r8'' (chan ''fr'' ''Canal+'' ''http://c'')
        (addChannelToFavorites ''1700000000001'' ''q7'' (chan ''fr'' ''Canal+'' ''http://c'')
           nestedForest)) ''FR'' ''canal'' = 1
   \<and> favId ''1700000000001'' ''q7'' \<notin> entryId ` set (allEntries nestedForest)
   \<and> distinct (map entryId (allEntries nestedForest))
   \<and> distinct (map entryId (allEntries
        (addChannelToFavorites ''1700000000001'' ''q7'' (chan ''fr'' ''Canal+'' ''http://c'')
           nestedForest)))"
proof -
  have k1: "toUpperCase (orElse (iso (chan ''fr'' ''TF1'' ''http://a'')) []) = ''FR''"
    "channelSlug (chan ''fr'' ''TF1'' ''http://a'') = ''tf1''" by code_simp+
  have k2: "toUpperCase (orElse (iso (chan ''fr'' ''Canal+'' ''http://c'')) []) = ''FR''"
    "channelSlug (chan ''fr'' ''Canal+'' ''http://c'') = ''canal''"
    "orElse (name (chan ''fr'' ''Canal+'' ''http://c'')) ''Channel'' = ''Canal+''"
    "favId ''1700000000001'' ''q7'' = ''f_1700000000001_q7''" by code_simp+
  have h1: "\<exists>e \<in> set (allEntries nestedForest). isChannelEntry e
        \<and> toUpperCase (entryIso e) = toUpperCase (orElse (iso (chan ''fr'' ''TF1'' ''http://a'')) [])
        \<and> toLowerCase (entrySlug e) = channelSlug (chan ''fr'' ''TF1'' ''http://a'')"
    by code_simp
  have h2: "\<not> (\<exists>e \<in> set (allEntries nestedForest). isChannelEntry e
        \<and> toUpperCase (entryIso e) = toUpperCase (orElse (iso (chan ''fr'' ''Canal+'' ''http://c'')) [])
        \<and> toLowerCase (entrySlug e) = channelSlug (chan ''fr'' ''Canal+'' ''http://c''))"
    by code_simp
  have h3: "ChannelEntry ''f_4'' ''FR'' ''tf1'' ''TF1'' \<in> set (allEntries nestedForest)"
    by code_simp
  have h4: "keyCount nestedForest ''FR'' ''canal'' = 0" by code_simp
  have h5: "favId ''1700000000001'' ''q7'' \<notin> entryId ` set (allEntries nestedForest)"
    "distinct (map entryId (allEntries nestedForest))" by code_simp+
  note t1 = C9_add_favorite [of nestedForest "chan ''fr'' ''TF1'' ''http://a''"
    "''1700000000001''" "''q7''" "ChannelEntry ''f_4'' ''FR'' ''tf1'' ''TF1''"]
  note t2 = C9_add_favorite [of nestedForest "chan ''fr'' ''Canal+'' ''http://c''"
    "''1700000000001''" "''q7''" "ChannelEntry ''f_4'' ''FR'' ''tf1'' ''TF1''" "''FR''" "''canal''"
    "''1700000000002''" "''r8''"]
  from t1 h1 have r1: "addChannelToFavorites ''1700000000001'' ''q7''
      (chan ''fr'' ''TF1'' ''http://a'') nestedForest = nestedForest" by blast
  from t1 h3 have r3: "occursIn (ChannelEntry ''f_4'' ''FR'' ''tf1'' ''TF1'') nestedForest"
    by simp
  from t2 h2 have r2: "addChannelToFavorites ''1700000000001'' ''q7''
      (chan ''fr'' ''Canal+'' ''http://c'') nestedForest
       = nestedForest @ [ChannelEntry ''f_1700000000001_q7'' ''FR'' ''canal'' ''Canal+'']"
    unfolding k2 by blast
  note t2k = t2 [unfolded k2, THEN conjunct2, THEN conjunct2, THEN conjunct2, THEN conjunct2,
    THEN conjunct2, THEN conjunct1]
  from t2k h4 have r4: "keyCount (addChannelToFavorites ''1700000000002'' ''r8''
        (chan ''fr'' ''Canal+'' ''http://c'')
        (addChannelToFavorites ''1700000000001'' ''q7'' (chan ''fr'' ''Canal+'' ''http://c'')
           nestedForest)) ''FR'' ''canal'' = 1"
    by simp
  from t2 h5 have r5: "distinct (map entryId (allEntries
        (addChannelToFavorites ''1700000000001'' ''q7'' (chan ''fr'' ''Canal+'' ''http://c'')
           nestedForest)))" by blast
  from h1 h2 h5 r1 r2 r3 r4 r5 show ?thesis by blast
qed

text \<open>
  C10: the deep-link reader returns a country only when the \<open>country\<close> parameter, trimmed
  and upper-cased, has exactly 2 characters. A value of any other length, such as \<open>FRA\<close>,
  gives no country, and then nothing is selected; whenever a country of the map is
  selected, the code passed on is the 2-letter value itself, so the ISO3-to-ISO2 branch of
  \<^verbatim>\<open>applyUrlState\<close> is never taken.
\<close>

theorem C10_deep_link_country:
  "(country (getUrlState params) = Some c
      \<longleftrightarrow> (\<exists>v. map_of params ''country'' = Some v \<and> c = toUpperCase (trim v) \<and> length c = 2))
   \<and> (map_of params ''country'' = Some v \<and> length (toUpperCase (trim v)) \<noteq> 2
        \<longrightarrow> country (getUrlState params) = None \<and> applyUrlState h params = NoSelection)
   \<and> (map_of params ''country'' = None
        \<longrightarrow> country (getUrlState params) = None \<and> applyUrlState h params = NoSelection)
   \<and> country (getUrlState [(''country'', ''FRA'')]) = None
   \<and> applyUrlState h [(''country'', ''FRA'')] = NoSelection
   \<and> (applyUrlState h params = SelectByIso2 x ch
        \<longrightarrow> length x = 2 \<and> country (getUrlState params) = Some x)"
proof -
  have a: "country (getUrlState params) = Some c
      \<longleftrightarrow> (\<exists>v. map_of params ''country'' = Some v \<and> c = toUpperCase (trim v) \<and> length c = 2)"
    by (cases "map_of params ''country''") (auto simp: getUrlState_def Let_def)
  have b: "map_of params ''country'' = Some v \<and> length (toUpperCase (trim v)) \<noteq> 2
        \<longrightarrow> country (getUrlState params) = None \<and> applyUrlState h params = NoSelection"
    by (auto simp: applyUrlState_def getUrlState_def Let_def)
  have c: "map_of params ''country'' = None
        \<longrightarrow> country (getUrlState params) = None \<and> applyUrlState h params = NoSelection"
    by (auto simp: applyUrlState_def getUrlState_def Let_def)
  have d: "country (getUrlState [(''country'', ''FRA'')]) = None" by code_simp
  have e: "applyUrlState h [(''country'', ''FRA'')] = NoSelection"
    using d by (simp add: applyUrlState_def Let_def)
  have f: "applyUrlState h params = SelectByIso2 x ch
        \<longrightarrow> length x = 2 \<and> country (getUrlState params) = Some x"
    by (cases "map_of params ''country''")
       (auto simp: applyUrlState_def getUrlState_def Let_def split: if_splits)
  from a b c d e f show ?thesis by blast
qed

text \<open>
  The links \<open>?country=deu&channel=zdf\<close>, \<open>?channel=zdf\<close> and \<open>?country=%20fr&channel=tf1\<close>.
\<close>

theorem C10_deep_link_country_witness:
  "map_of [(''country'', ''deu''), (''channel'', ''zdf'')] ''country'' = Some ''deu''
   \<and> length (toUpperCase (trim ''deu'')) \<noteq> 2
   \<and> applyUrlState True [(''country'', ''deu''), (''channel'', ''zdf'')] = NoSelection
   \<and> map_of [(''channel'', ''zdf'')] ''country'' = None
   \<and> applyUrlState True [(''channel'', ''zdf'')] = NoSelection
   \<and> applyUrlState True [(''country'', '' fr''), (''channel'', ''tf1'')]
       = SelectByIso2 ''FR'' (Some ''tf1'')
   \<and> country (getUrlState [(''country'', '' fr''), (''channel'', ''tf1'')]) = Some ''FR''"
proof -
  have h1: "map_of [(''country'', ''deu''), (''channel'', ''zdf'')] ''country'' = Some ''deu''
     \<and> length (toUpperCase (trim ''deu'')) \<noteq> 2" by code_simp
  have h2: "map_of [(''channel'', ''zdf'')] ''country'' = None" by code_simp
  have h3: "applyUrlState True [(''country'', '' fr''), (''channel'', ''tf1'')]
       = SelectByIso2 ''FR'' (Some ''tf1'')" by code_simp
  from h1 C10_deep_link_country
    [of "[(''country'', ''deu''), (''channel'', ''zdf'')]" _ "''deu''" True]
  have r1: "applyUrlState True [(''country'', ''deu''), (''channel'', ''zdf'')] = NoSelection"
    by blast
  from h2 C10_deep_link_country [of "[(''channel'', ''zdf'')]" _ _ True]
  have r2: "applyUrlState True [(''channel'', ''zdf'')] = NoSelection" by blast
  from h3 C10_deep_link_country
    [of "[(''country'', '' fr''), (''channel'', ''tf1'')]" _ _ True "''FR''" "Some ''tf1''"]
  have r3: "country (getUrlState [(''country'', '' fr''), (''channel'', ''tf1'')]) = Some ''FR''"
    by blast
  from h1 h2 h3 r1 r2 r3 show ?thesis by blast
qed

end
